theory Spec2Isabelle
  imports Complex_Main "HOL-Library.Log_Nat" "HOL-Library.AList"
begin

section \<open>JavaScript values used by the metering pipeline\<close>

text \<open>
  A string is the list of its UTF-16 code units, each a number below \<open>2 ^ 16\<close>;
  \<^verbatim>\<open>s.length\<close> is the length of the list. \<open>lit\<close> gives the code units of an ASCII literal.
  A value that may be \<^verbatim>\<open>undefined\<close> or \<^verbatim>\<open>null\<close> is an \<open>option\<close>. A JavaScript number is
  either a proper number or \<^verbatim>\<open>NaN\<close>; token counts carry naturals, costs carry rationals.
\<close>

type_synonym jstring = "nat list"

definition lit :: "string \<Rightarrow> jstring" where
  "lit s = map of_char s"

datatype 'a jsnum = Num 'a | NaN

fun js_add :: "'a::plus jsnum \<Rightarrow> 'a jsnum \<Rightarrow> 'a jsnum" where
  "js_add (Num a) (Num b) = Num (a + b)"
| "js_add _ _ = NaN"

text \<open>\<^verbatim>\<open>tokens * cost_per_token\<close>: a token count times a price.\<close>

fun js_times :: "nat jsnum \<Rightarrow> rat \<Rightarrow> rat jsnum" where
  "js_times (Num n) c = Num (of_nat n * c)"
| "js_times NaN c = NaN"

text \<open>A string value is truthy when it is present and not the empty string.\<close>

definition truthy :: "jstring option \<Rightarrow> bool" where
  "truthy v = (case v of None \<Rightarrow> False | Some s \<Rightarrow> s \<noteq> [])"

subsection \<open>String primitives\<close>

text \<open>
  The code units that the regular-expression class \<^verbatim>\<open>\s\<close> matches, which are also the ones
  that \<^verbatim>\<open>trim()\<close> strips: tab, line feed, vertical tab, form feed, carriage return, space,
  no-break space (U+00A0), U+1680, U+2000 to U+200A, the line and paragraph separators
  U+2028 and U+2029, U+202F, U+205F, U+3000 and the byte-order mark U+FEFF.
\<close>

definition isSpace :: "nat \<Rightarrow> bool" where
  "isSpace c \<longleftrightarrow>
     c \<in> {0x09, 0x0A, 0x0B, 0x0C, 0x0D, 0x20, 0xA0, 0x1680, 0x2028, 0x2029, 0x202F, 0x205F,
          0x3000, 0xFEFF}
     \<or> (0x2000 \<le> c \<and> c \<le> 0x200A)"

definition trim :: "jstring \<Rightarrow> jstring" where
  "trim s = rev (dropWhile isSpace (rev (dropWhile isSpace s)))"

text \<open>
  \<^verbatim>\<open>s.split(/[class]+/)\<close>: the pieces between maximal runs of separator code units. A
  separator run at the start or at the end leaves an empty piece there, and the empty string
  splits into one empty piece.
\<close>

fun split_runs :: "(nat \<Rightarrow> bool) \<Rightarrow> jstring \<Rightarrow> jstring list" where
  "split_runs sep [] = [[]]"
| "split_runs sep [c] = (if sep c then [[], []] else [[c]])"
| "split_runs sep (c # d # cs) =
     (if sep c then (if sep d then split_runs sep (d # cs) else [] # split_runs sep (d # cs))
      else (case split_runs sep (d # cs) of
              [] \<Rightarrow> [[c]]
            | w # ws \<Rightarrow> (c # w) # ws))"

text \<open>
  \<^verbatim>\<open>s.toLowerCase()\<close>. On a string of ASCII code units it replaces the letters A to Z by
  a to z. On any other string the result is given by the Unicode case mapping of the
  runtime, a parameter here.
\<close>

definition lower_ascii :: "nat \<Rightarrow> nat" where
  "lower_ascii c = (if 0x41 \<le> c \<and> c \<le> 0x5A then c + 0x20 else c)"

definition toLowerCase :: "(jstring \<Rightarrow> jstring) \<Rightarrow> jstring \<Rightarrow> jstring" where
  "toLowerCase unicode s = (if list_all (\<lambda>c. c < 0x80) s then map lower_ascii s else unicode s)"

text \<open>\<^verbatim>\<open>s.includes(w)\<close>: \<open>w\<close> occurs in \<open>s\<close> as a contiguous run of code units.\<close>

fun starts_with :: "jstring \<Rightarrow> jstring \<Rightarrow> bool" where
  "starts_with s [] = True"
| "starts_with [] (w # ws) = False"
| "starts_with (c # cs) (w # ws) = (c = w \<and> starts_with cs ws)"

fun str_includes :: "jstring \<Rightarrow> jstring \<Rightarrow> bool" where
  "str_includes [] w = (w = [])"
| "str_includes (c # cs) w = (starts_with (c # cs) w \<or> str_includes cs w)"

subsection \<open>Double-precision products of a count and a constant\<close>

text \<open>
  The estimators multiply an array length by a decimal literal and take \<^verbatim>\<open>Math.ceil\<close>.
  The literal denotes the nearest IEEE-754 double, \<open>m / 2 ^ 52\<close> for a 53-bit integer \<open>m\<close>,
  and the product is rounded to 53 significant bits, ties to even. Values are kept as
  integers in units of \<open>2 ^ -52\<close>.
\<close>

definition round_to_53 :: "nat \<Rightarrow> nat" where
  "round_to_53 p =
     (let b = floorlog 2 p in
      if b \<le> 53 then p
      else let s = b - 53; q = p div 2 ^ s; r = p mod 2 ^ s; h = 2 ^ (s - 1)
           in (if h < r \<or> (r = h \<and> odd q) then q + 1 else q) * 2 ^ s)"

definition ceil_product :: "nat \<Rightarrow> nat \<Rightarrow> nat" where
  "ceil_product n m = (round_to_53 (n * m) + (2 ^ 52 - 1)) div 2 ^ 52"

section \<open>Token counter (utils/token-counter.js)\<close>

text \<open>The module is the source file \<^verbatim>\<open>src/unnamed/part_004\<close>.\<close>

text \<open>
  A property read from the object literal \<^verbatim>\<open>TOKEN_MULTIPLIERS\<close>: one of its four own
  numeric properties (given by the mantissa of the double), a property inherited from
  \<^verbatim>\<open>Object.prototype\<close> (the only all-lower-case names are \<^verbatim>\<open>constructor\<close> and
  \<^verbatim>\<open>__proto__\<close>; both are truthy and not numbers), or \<^verbatim>\<open>undefined\<close>.
\<close>

datatype property = Multiplier nat | Inherited | Undefined

definition mant_1_3 :: nat where "mant_1_3 = 5854679515581645"
definition mant_1_2 :: nat where "mant_1_2 = 5404319552844595"
definition mant_1_1 :: nat where "mant_1_1 = 4953959590107546"
definition mant_1_25 :: nat where "mant_1_25 = 5629499534213120"

definition TOKEN_MULTIPLIERS :: "jstring \<Rightarrow> property" where
  "TOKEN_MULTIPLIERS key =
     (if key = lit ''openai'' then Multiplier mant_1_3
      else if key = lit ''anthropic'' then Multiplier mant_1_2
      else if key = lit ''google'' then Multiplier mant_1_1
      else if key = lit ''default'' then Multiplier mant_1_25
      else if key = lit ''constructor'' \<or> key = lit ''__proto__'' then Inherited
      else Undefined)"

definition wordCount :: "jstring \<Rightarrow> nat" where
  "wordCount text = length (filter (\<lambda>word. 0 < length word) (split_runs isSpace (trim text)))"

text \<open>
  \<^verbatim>\<open>countTokens(text, provider)\<close>, under the case mapping of the runtime. The text is
  \<open>None\<close> when it is absent or not a string; the empty string is falsy as well.
\<close>

definition countTokens :: "(jstring \<Rightarrow> jstring) \<Rightarrow> jstring option \<Rightarrow> jstring \<Rightarrow> nat jsnum" where
  "countTokens unicode text provider =
     (case text of
        None \<Rightarrow> Num 0
      | Some t \<Rightarrow>
          if t = [] then Num 0
          else (case TOKEN_MULTIPLIERS (toLowerCase unicode provider) of
                  Multiplier m \<Rightarrow> Num (ceil_product (wordCount t) m)
                | Inherited \<Rightarrow> NaN
                | Undefined \<Rightarrow> Num (ceil_product (wordCount t) mant_1_25)))"

text \<open>\<^verbatim>\<open>countTokensForRequest(prompt, response, provider)\<close>.\<close>

record token_counts =
  tc_input_tokens :: "nat jsnum"
  tc_output_tokens :: "nat jsnum"
  tc_total_tokens :: "nat jsnum"

definition countTokensForRequest ::
  "(jstring \<Rightarrow> jstring) \<Rightarrow> jstring option \<Rightarrow> jstring option \<Rightarrow> jstring \<Rightarrow> token_counts" where
  "countTokensForRequest unicode p resp prov =
     (let inputTokens = countTokens unicode p prov;
          outputTokens = (if truthy resp then countTokens unicode resp prov else Num 0)
      in \<lparr>tc_input_tokens = inputTokens,
          tc_output_tokens = outputTokens,
          tc_total_tokens = js_add inputTokens outputTokens\<rparr>)"

section \<open>Stored data (database.js)\<close>

datatype status = Processing | Success | Failure | Hallucination

text \<open>
  Flag payloads. A filter's flags are an object from flag name to a boolean, a string or a
  number. An object is kept as the association list of its own properties in the order of
  their creation, updated with \<open>AList.update\<close> (replace in place, or append); the
  statements below read it through \<open>map_of\<close>. The pipeline's \<^verbatim>\<open>safety_flags\<close> object maps
  a filter name to that filter's flags, \<^verbatim>\<open>error\<close> to a text and \<^verbatim>\<open>quality_issues\<close> to a list
  of issue names.
\<close>

datatype flag_value = FBool bool | FStr jstring | FNum rat

type_synonym flag_map = "(jstring \<times> flag_value) list"

datatype flag_payload = FilterFlags flag_map | ErrorText jstring | QualityIssues "jstring list"

type_synonym safety_flag_map = "(jstring \<times> flag_payload) list"

text \<open>The generation options of a request, spread into the provider call and the metadata.\<close>

record options =
  max_tokens :: "nat option"
  temperature :: "rat option"
  retry_of :: "jstring option"
  opt_retry_count :: "nat option"

record metadata =
  user_agent :: "jstring option"
  ip_address :: "jstring option"
  timestamp :: jstring
  md_options :: options
  actual_model :: "jstring option"
  finish_reason :: "jstring option"

text \<open>The \<^verbatim>\<open>usageData\<close> object of the track handler, one row of \<^verbatim>\<open>usage_logs\<close>.\<close>

record usage_record =
  user_id :: "jstring option"
  team_id :: "jstring option"
  session_id :: "jstring option"
  model_provider :: jstring
  model_name :: jstring
  prompt :: jstring
  response :: "jstring option"
  input_tokens :: "nat jsnum"
  output_tokens :: "nat jsnum"
  total_tokens :: "nat jsnum"
  cost_per_input_token :: rat
  cost_per_output_token :: rat
  total_cost :: "rat jsnum"
  status :: status
  error_message :: "jstring option"
  retry_count :: nat
  response_time_ms :: int
  safety_flags :: safety_flag_map
  metadata :: metadata

record usage_row =
  row_id :: jstring
  row_data :: usage_record

record pricing =
  provider :: jstring
  pricing_model_name :: jstring
  input_cost_per_1k_tokens :: rat
  output_cost_per_1k_tokens :: rat
  effective_date :: nat
  pricing_is_active :: bool

text \<open>
  The parameters of a filter as the filters expect them: an object in which each key that
  the filters read is absent or holds a value of the type the filter uses it at (a list of
  strings, a natural number, a number, a boolean).
\<close>

record rule_set =
  blocked_keywords :: "jstring list option"
  max_prompt_length :: "nat option"
  check_pii :: bool
  block_pii :: bool
  max_cost_per_call :: "rat option"
  daily_spending_limit :: "rat option"
  max_calls_per_minute :: "nat option"
  max_calls_per_hour :: "nat option"
  max_calls_per_day :: "nat option"
  allowed_models :: "jstring list option"
  blocked_models :: "jstring list option"

text \<open>
  The \<^verbatim>\<open>rules\<close> column holds text; nothing constrains it to the JSON text of such an object
  (the routes that store a filter write \<^verbatim>\<open>JSON.stringify\<close> of whatever the request carries).
  \<open>Malformed\<close> is text that \<^verbatim>\<open>JSON.parse\<close> rejects. Text that parses gives \<^verbatim>\<open>null\<close>, an
  object of the expected shape, or some other value, kept as its JSON text: an object with
  a key of another type, or a number, a string, a boolean or an array.
\<close>

datatype rules_value = Null | Rules rule_set | Untyped jstring

datatype rules_text = Malformed | Json rules_value

record safety_filter =
  name :: jstring
  filter_type :: jstring
  rules :: rules_text
  is_active :: bool

record db =
  usage_logs :: "usage_row list"
  model_pricing :: "pricing list"
  safety_filters :: "safety_filter list"

text \<open>
  Calls of the database module are taken to succeed. \<^verbatim>\<open>insertUsageLog\<close>: append one row
  under a fresh id and return the id.
\<close>

definition insertUsageLog :: "jstring \<Rightarrow> usage_record \<Rightarrow> db \<Rightarrow> jstring \<times> db" where
  "insertUsageLog new_id usageData d =
     (new_id, d\<lparr>usage_logs := usage_logs d @ [\<lparr>row_id = new_id, row_data = usageData\<rparr>]\<rparr>)"

text \<open>
  \<^verbatim>\<open>getModelPricing\<close>: the active entry for the provider and the model with the latest
  effective date.
\<close>

fun latest :: "pricing list \<Rightarrow> pricing option" where
  "latest [] = None"
| "latest (p # ps) =
     (case latest ps of
        None \<Rightarrow> Some p
      | Some q \<Rightarrow> if effective_date p < effective_date q then Some q else Some p)"

definition getModelPricing :: "db \<Rightarrow> jstring \<Rightarrow> jstring \<Rightarrow> pricing option" where
  "getModelPricing d prov modelName =
     latest (filter (\<lambda>p. provider p = prov \<and> pricing_model_name p = modelName \<and> pricing_is_active p)
               (model_pricing d))"

definition getSafetyFilters :: "db \<Rightarrow> safety_filter list" where
  "getSafetyFilters d = filter is_active (safety_filters d)"

section \<open>Requests and results of the safety filters\<close>

text \<open>
  The object that the track handler hands to \<^verbatim>\<open>checkFilters\<close>. The handler takes its
  fields from the request body as they come: \<open>Request\<close> is the object whose identifiers
  are strings or absent and whose provider, model and prompt are strings; \<open>OtherRequest\<close>
  is any other object, kept as its JSON text.
\<close>

record request_data =
  rd_user_id :: "jstring option"
  rd_team_id :: "jstring option"
  rd_model_provider :: jstring
  rd_model_name :: jstring
  rd_prompt :: jstring

datatype filter_request = Request request_data | OtherRequest jstring

text \<open>
  The reason texts are templates; each is kept as its template and its arguments.
  \<open>ReasonText\<close> is a text built from values outside the expected types.
\<close>

datatype reason =
    NoReason
  | UnknownFilterType
  | BlockedKeyword jstring
  | PromptTooLong nat nat
  | PotentialPII
  | CostTooHigh rat rat
  | DailySpendingExceeded rat rat rat
  | RateLimitExceeded nat
  | HourlyRateLimitExceeded nat
  | DailyRateLimitExceeded nat
  | ModelNotAllowed jstring
  | ModelBlocked jstring
  | ReasonText jstring

text \<open>
  The result of one filter. The four known filter types return a flags object (possibly
  empty); the default branch of \<^verbatim>\<open>applyFilter\<close> returns none.
\<close>

record filter_result =
  fr_allowed :: bool
  fr_reason :: reason
  fr_flags :: "flag_map option"

datatype exn = SyntaxError | TypeError jstring | Error jstring

section \<open>The environment of one request\<close>

text \<open>
  The regular-expression literals of safety-filters.js. Matching is done by the runtime's
  regular-expression engine, which the environment supplies.
\<close>

datatype regex =
    PII_SSN | PII_CreditCard | PII_Email | PII_Phone
  | Honest_NoAccess | Honest_CannotBrowse | Honest_AsAnAI | Honest_NotAble
  | Suspicious_Date | Suspicious_Price | Suspicious_Phone
  | Incomplete_Ellipsis | Incomplete_Tag | Truncated_Tag | CutOff_Tag
  | Inappropriate_Hate | Inappropriate_Violence | Inappropriate_Illegal

text \<open>The normalised reply of a provider: \<^verbatim>\<open>{response, model, finish_reason}\<close>.\<close>

record ai_response =
  ai_text :: "jstring option"
  ai_model :: "jstring option"
  ai_finish_reason :: "jstring option"

text \<open>
  What the handler reads from outside.

  \<^item> The runtime: the regular-expression engine, the Unicode case mapping behind
    \<^verbatim>\<open>toLowerCase\<close>, and the double-precision product, quotient and sum of two finite
    numbers, which the cost filter uses on prices.
  \<^item> What the runtime makes of a filter function applied to rules or to a request outside
    the expected types, where the outcome rests on the coercions of the language: the
    result the function returns or the exception it raises. The cost and the rate filter
    catch their exceptions themselves, so they always return.
  \<^item> The results of the SQL aggregates that the cost and rate filters run over
    \<^verbatim>\<open>usage_logs\<close>, for the identity given.
  \<^item> The provider's HTTP endpoint (provider, key, model, prompt, options; \<open>Inl\<close> is the
    message of the error it raises), the next UUID, the clock, and the request headers.
\<close>

record env =
  rx_test :: "regex \<Rightarrow> jstring \<Rightarrow> bool"
  rx_count :: "regex \<Rightarrow> jstring \<Rightarrow> nat"
  unicode_lower :: "jstring \<Rightarrow> jstring"
  double_times :: "rat \<Rightarrow> rat \<Rightarrow> rat"
  double_divide :: "rat \<Rightarrow> rat \<Rightarrow> rat"
  double_plus :: "rat \<Rightarrow> rat \<Rightarrow> rat"
  js_content :: "rules_value \<Rightarrow> filter_request \<Rightarrow> exn + filter_result"
  js_cost :: "db \<Rightarrow> rules_value \<Rightarrow> filter_request \<Rightarrow> filter_result"
  js_rate :: "db \<Rightarrow> rules_value \<Rightarrow> filter_request \<Rightarrow> filter_result"
  js_model :: "rules_value \<Rightarrow> filter_request \<Rightarrow> exn + filter_result"
  sum_cost_today :: "usage_row list \<Rightarrow> jstring option \<Rightarrow> rat option"
  calls_last_minute :: "usage_row list \<Rightarrow> jstring option \<Rightarrow> nat"
  calls_last_hour :: "usage_row list \<Rightarrow> jstring option \<Rightarrow> nat"
  calls_today :: "usage_row list \<Rightarrow> jstring option \<Rightarrow> nat"
  http_post :: "jstring \<Rightarrow> jstring \<Rightarrow> jstring \<Rightarrow> jstring \<Rightarrow> options \<Rightarrow> jstring + ai_response"
  uuidv4 :: jstring
  start_time :: int
  end_time :: int
  req_user_agent :: "jstring option"
  req_ip :: "jstring option"
  iso_now :: jstring

section \<open>Safety filters (services/safety-filters.js)\<close>

text \<open>The module follows database.js in \<^verbatim>\<open>src/server/database.js\<close>, from line 373 on.\<close>

definition initial_result :: filter_result where
  "initial_result = \<lparr>fr_allowed = True, fr_reason = NoReason, fr_flags = Some []\<rparr>"

definition deny :: "reason \<Rightarrow> filter_result \<Rightarrow> filter_result" where
  "deny why r = r\<lparr>fr_allowed := False, fr_reason := why\<rparr>"

definition set_flag :: "jstring \<Rightarrow> flag_value \<Rightarrow> filter_result \<Rightarrow> filter_result" where
  "set_flag k v r = r\<lparr>fr_flags := map_option (AList.update k v) (fr_flags r)\<rparr>"

text \<open>\<^verbatim>\<open>estimateTokenCount\<close> of safety-filters.js: no trim and no removal of empty pieces.\<close>

definition estimateTokenCount :: "jstring \<Rightarrow> nat" where
  "estimateTokenCount text = ceil_product (length (split_runs isSpace text)) mant_1_3"

text \<open>
  \<^verbatim>\<open>applyContentFilter\<close>. Reading \<^verbatim>\<open>rules.blocked_keywords\<close> from \<^verbatim>\<open>null\<close> raises a
  \<^verbatim>\<open>TypeError\<close>, which the function does not catch.
\<close>

definition applyContentFilter :: "env \<Rightarrow> rules_value \<Rightarrow> filter_request \<Rightarrow> exn + filter_result" where
  "applyContentFilter e v rq =
     (case v of
        Null \<Rightarrow> Inl (TypeError (lit ''Cannot read properties of null (reading blocked_keywords)''))
      | Untyped t \<Rightarrow> js_content e v rq
      | Rules rs \<Rightarrow>
          (case rq of
             OtherRequest t \<Rightarrow> js_content e v rq
           | Request rd \<Rightarrow>
               Inr (let p = rd_prompt rd;
                        r1 = (case blocked_keywords rs of
                                None \<Rightarrow> initial_result
                              | Some kws \<Rightarrow>
                                  if 0 < length kws then
                                    (case find (\<lambda>word. str_includes (toLowerCase (unicode_lower e) p) word)
                                            (map (toLowerCase (unicode_lower e)) kws) of
                                       None \<Rightarrow> initial_result
                                     | Some word \<Rightarrow>
                                         set_flag (lit ''blocked_keyword'') (FStr word)
                                           (deny (BlockedKeyword word) initial_result))
                                  else initial_result);
                        r2 = (case max_prompt_length rs of
                                None \<Rightarrow> r1
                              | Some n \<Rightarrow>
                                  if n \<noteq> 0 \<and> n < length p
                                  then set_flag (lit ''prompt_too_long'') (FBool True)
                                         (deny (PromptTooLong (length p) n) r1)
                                  else r1)
                    in if check_pii rs
                       then (if \<exists>pattern \<in> set [PII_SSN, PII_CreditCard, PII_Email, PII_Phone].
                                   rx_test e pattern p
                             then (let r3 = set_flag (lit ''potential_pii'') (FBool True) r2
                                   in if block_pii rs then deny PotentialPII r3 else r3)
                             else r2)
                       else r2)))"

text \<open>
  \<^verbatim>\<open>applyCostFilter\<close>. The body is one \<^verbatim>\<open>try\<close> block whose \<^verbatim>\<open>catch\<close> sets the flag
  \<^verbatim>\<open>cost_filter_error\<close> and keeps what the result held by then. The rules are first read
  after the pricing lookup and the estimate, so rules that are \<^verbatim>\<open>null\<close> reach the \<^verbatim>\<open>catch\<close>
  only when a pricing entry exists, with the result still untouched.
\<close>

definition applyCostFilter :: "env \<Rightarrow> db \<Rightarrow> rules_value \<Rightarrow> filter_request \<Rightarrow> filter_result" where
  "applyCostFilter e d v rq =
     (case rq of
        OtherRequest t \<Rightarrow> js_cost e d v rq
      | Request rd \<Rightarrow>
          (case getModelPricing d (rd_model_provider rd) (rd_model_name rd) of
             None \<Rightarrow> set_flag (lit ''no_pricing_info'') (FBool True) initial_result
           | Some pr \<Rightarrow>
               (case v of
                  Null \<Rightarrow> set_flag (lit ''cost_filter_error'') (FBool True) initial_result
                | Untyped t \<Rightarrow> js_cost e d v rq
                | Rules rs \<Rightarrow>
                    (let estimatedTokens = estimateTokenCount (rd_prompt rd);
                         estimatedCost =
                           double_divide e
                             (double_times e (of_nat estimatedTokens) (input_cost_per_1k_tokens pr))
                             1000;
                         r1 = (case max_cost_per_call rs of
                                 None \<Rightarrow> initial_result
                               | Some limit \<Rightarrow>
                                   if limit \<noteq> 0 \<and> limit < estimatedCost
                                   then set_flag (lit ''cost_too_high'') (FBool True)
                                          (deny (CostTooHigh estimatedCost limit) initial_result)
                                   else initial_result);
                         r2 = (case daily_spending_limit rs of
                                 None \<Rightarrow> r1
                               | Some limit \<Rightarrow>
                                   if limit \<noteq> 0 then
                                     (let currentSpending =
                                            (case sum_cost_today e (usage_logs d) (rd_user_id rd) of
                                               None \<Rightarrow> 0
                                             | Some c \<Rightarrow> c)
                                      in if limit < double_plus e currentSpending estimatedCost
                                         then set_flag (lit ''daily_limit_exceeded'') (FBool True)
                                                (deny (DailySpendingExceeded currentSpending
                                                         estimatedCost limit) r1)
                                         else r1)
                                   else r1)
                     in set_flag (lit ''estimated_cost'') (FNum estimatedCost) r2))))"

text \<open>
  \<^verbatim>\<open>applyRateFilter\<close>, one \<^verbatim>\<open>try\<close> block again: its \<^verbatim>\<open>catch\<close> sets the flag
  \<^verbatim>\<open>rate_filter_error\<close>. Rules that are \<^verbatim>\<open>null\<close> raise at the first read.
\<close>

definition applyRateFilter :: "env \<Rightarrow> db \<Rightarrow> rules_value \<Rightarrow> filter_request \<Rightarrow> filter_result" where
  "applyRateFilter e d v rq =
     (case v of
        Null \<Rightarrow> set_flag (lit ''rate_filter_error'') (FBool True) initial_result
      | Untyped t \<Rightarrow> js_rate e d v rq
      | Rules rs \<Rightarrow>
          (case rq of
             OtherRequest t \<Rightarrow> js_rate e d v rq
           | Request rd \<Rightarrow>
               (let r1 = (case max_calls_per_minute rs of
                            None \<Rightarrow> initial_result
                          | Some limit \<Rightarrow>
                              (let n = calls_last_minute e (usage_logs d) (rd_user_id rd)
                               in if limit \<noteq> 0 \<and> limit \<le> n
                                  then set_flag (lit ''rate_limit_exceeded'') (FBool True)
                                         (deny (RateLimitExceeded n) initial_result)
                                  else initial_result));
                    r2 = (case max_calls_per_hour rs of
                            None \<Rightarrow> r1
                          | Some limit \<Rightarrow>
                              (let n = calls_last_hour e (usage_logs d) (rd_user_id rd)
                               in if limit \<noteq> 0 \<and> limit \<le> n
                                  then set_flag (lit ''hourly_limit_exceeded'') (FBool True)
                                         (deny (HourlyRateLimitExceeded n) r1)
                                  else r1))
                in (case max_calls_per_day rs of
                      None \<Rightarrow> r2
                    | Some limit \<Rightarrow>
                        (let n = calls_today e (usage_logs d) (rd_user_id rd)
                         in if limit \<noteq> 0 \<and> limit \<le> n
                            then set_flag (lit ''daily_limit_exceeded'') (FBool True)
                                   (deny (DailyRateLimitExceeded n) r2)
                            else r2)))))"

text \<open>
  \<^verbatim>\<open>applyModelFilter\<close>. Reading \<^verbatim>\<open>rules.allowed_models\<close> from \<^verbatim>\<open>null\<close> raises a
  \<^verbatim>\<open>TypeError\<close>, which the function does not catch.
\<close>

definition applyModelFilter :: "env \<Rightarrow> rules_value \<Rightarrow> filter_request \<Rightarrow> exn + filter_result" where
  "applyModelFilter e v rq =
     (case v of
        Null \<Rightarrow> Inl (TypeError (lit ''Cannot read properties of null (reading allowed_models)''))
      | Untyped t \<Rightarrow> js_model e v rq
      | Rules rs \<Rightarrow>
          (case rq of
             OtherRequest t \<Rightarrow> js_model e v rq
           | Request rd \<Rightarrow>
               Inr (let modelKey = rd_model_provider rd @ lit ''/'' @ rd_model_name rd;
                        r1 = (case allowed_models rs of
                                None \<Rightarrow> initial_result
                              | Some ms \<Rightarrow>
                                  if 0 < length ms \<and> modelKey \<notin> set ms
                                  then set_flag (lit ''model_not_allowed'') (FBool True)
                                         (deny (ModelNotAllowed modelKey) initial_result)
                                  else initial_result)
                    in (case blocked_models rs of
                          None \<Rightarrow> r1
                        | Some ms \<Rightarrow>
                            if 0 < length ms \<and> modelKey \<in> set ms
                            then set_flag (lit ''model_blocked'') (FBool True)
                                   (deny (ModelBlocked modelKey) r1)
                            else r1))))"

text \<open>\<^verbatim>\<open>applyFilter\<close>: the \<^verbatim>\<open>switch\<close> on the filter type; the default branch reads no rules.\<close>

definition applyFilter ::
  "env \<Rightarrow> db \<Rightarrow> safety_filter \<Rightarrow> rules_value \<Rightarrow> filter_request \<Rightarrow> exn + filter_result" where
  "applyFilter e d f v rq =
     (if filter_type f = lit ''content'' then applyContentFilter e v rq
      else if filter_type f = lit ''cost'' then Inr (applyCostFilter e d v rq)
      else if filter_type f = lit ''rate'' then Inr (applyRateFilter e d v rq)
      else if filter_type f = lit ''model'' then applyModelFilter e v rq
      else Inr \<lparr>fr_allowed = True, fr_reason = UnknownFilterType, fr_flags = None\<rparr>)"

definition JSON_parse :: "rules_text \<Rightarrow> exn + rules_value" where
  "JSON_parse t = (case t of Malformed \<Rightarrow> Inl SyntaxError | Json v \<Rightarrow> Inr v)"

record check_result =
  allowed :: bool
  reasons :: "(jstring \<times> reason) list"
  flags :: safety_flag_map

text \<open>
  \<^verbatim>\<open>object[key] = value\<close> for a value that is an object, on an object created by a literal:
  the key \<^verbatim>\<open>__proto__\<close> names the accessor inherited from \<^verbatim>\<open>Object.prototype\<close>, so the
  assignment replaces the prototype and creates no property; any other key is created or
  overwritten.
\<close>

definition set_property :: "jstring \<Rightarrow> 'v \<Rightarrow> (jstring \<times> 'v) list \<Rightarrow> (jstring \<times> 'v) list" where
  "set_property k v obj = (if k = lit ''__proto__'' then obj else AList.update k v obj)"

text \<open>
  The loop of \<^verbatim>\<open>checkFilters\<close>, with the result object threaded through. An exception
  raised while a filter is handled, by \<^verbatim>\<open>JSON.parse\<close> or by \<^verbatim>\<open>applyFilter\<close>, leaves the loop.
\<close>

fun check_loop ::
  "env \<Rightarrow> db \<Rightarrow> filter_request \<Rightarrow> safety_filter list \<Rightarrow> check_result \<Rightarrow> exn + check_result" where
  "check_loop e d rq [] result = Inr result"
| "check_loop e d rq (f # fs) result =
     (case JSON_parse (rules f) of
        Inl err \<Rightarrow> Inl err
      | Inr v \<Rightarrow>
          (case applyFilter e d f v rq of
             Inl err \<Rightarrow> Inl err
           | Inr filterResult \<Rightarrow>
               (let result1 = (if \<not> fr_allowed filterResult
                               then result\<lparr>allowed := False,
                                           reasons := reasons result @ [(name f, fr_reason filterResult)]\<rparr>
                               else result);
                    result2 = (case fr_flags filterResult of
                                 None \<Rightarrow> result1
                               | Some fl \<Rightarrow>
                                   result1\<lparr>flags := set_property (name f) (FilterFlags fl) (flags result1)\<rparr>)
                in check_loop e d rq fs result2)))"

text \<open>\<^verbatim>\<open>checkFilters\<close>: the loop inside \<^verbatim>\<open>try\<close>, and the \<^verbatim>\<open>catch\<close> that allows.\<close>

definition checkFilters :: "env \<Rightarrow> db \<Rightarrow> filter_request \<Rightarrow> check_result" where
  "checkFilters e d rq =
     (case check_loop e d rq (getSafetyFilters d) \<lparr>allowed = True, reasons = [], flags = []\<rparr> of
        Inr result \<Rightarrow> result
      | Inl err \<Rightarrow>
          \<lparr>allowed = True, reasons = [],
           flags = [(lit ''error'', ErrorText (lit ''Safety filter check failed''))]\<rparr>)"

subsection \<open>Response quality\<close>

definition checkForHallucination :: "env \<Rightarrow> jstring \<Rightarrow> jstring \<Rightarrow> bool" where
  "checkForHallucination e p r =
     (if length p * 5 < length r then True
      else if \<exists>pattern \<in> set [Honest_NoAccess, Honest_CannotBrowse, Honest_AsAnAI, Honest_NotAble].
                rx_test e pattern r
      then False
      else 3 < sum_list (map (\<lambda>pattern. rx_count e pattern r)
                           [Suspicious_Date, Suspicious_Price, Suspicious_Phone]))"

text \<open>The double nearest to 0.7 is \<open>mant_0_7 / 2 ^ 53\<close>.\<close>

definition mant_0_7 :: nat where "mant_0_7 = 6305039478318694"

definition checkForRepetition :: "env \<Rightarrow> jstring \<Rightarrow> bool" where
  "checkForRepetition e r =
     (let sentences = filter (\<lambda>s. 0 < length (trim s))
                        (split_runs (\<lambda>c. c \<in> {0x2E, 0x21, 0x3F}) r);
          uniqueSentences = remdups (map (\<lambda>s. toLowerCase (unicode_lower e) (trim s)) sentences)
      in 3 < length sentences
         \<and> length uniqueSentences * 2 ^ 53 < round_to_53 (length sentences * mant_0_7))"

definition checkForIncompleteResponse :: "env \<Rightarrow> jstring \<Rightarrow> bool" where
  "checkForIncompleteResponse e r =
     (\<exists>pattern \<in> set [Incomplete_Ellipsis, Incomplete_Tag, Truncated_Tag, CutOff_Tag].
         rx_test e pattern r)"

definition checkForInappropriateContent :: "env \<Rightarrow> jstring \<Rightarrow> bool" where
  "checkForInappropriateContent e r =
     (\<exists>pattern \<in> set [Inappropriate_Hate, Inappropriate_Violence, Inappropriate_Illegal].
         rx_test e pattern r)"

text \<open>
  \<^verbatim>\<open>checkResponseQuality\<close>. A reply without text makes \<^verbatim>\<open>response.length\<close> raise a
  \<^verbatim>\<open>TypeError\<close>.
\<close>

definition checkResponseQuality :: "env \<Rightarrow> jstring \<Rightarrow> jstring option \<Rightarrow> exn + jstring list" where
  "checkResponseQuality e p resp =
     (case resp of
        None \<Rightarrow> Inl (TypeError (lit ''Cannot read properties of undefined (reading length)''))
      | Some r \<Rightarrow>
          Inr ((if checkForHallucination e p r then [lit ''potential_hallucination''] else [])
               @ (if checkForRepetition e r then [lit ''repetitive_response''] else [])
               @ (if checkForIncompleteResponse e r then [lit ''incomplete_response''] else [])
               @ (if checkForInappropriateContent e r then [lit ''inappropriate_content''] else [])))"

section \<open>Provider adapter (services/ai-providers.js)\<close>

text \<open>
  \<^verbatim>\<open>makeRequest\<close>. \<^verbatim>\<open>PROVIDERS[provider.toLowerCase()]\<close> is truthy for the three
  configured providers and for the two inherited property names; the \<^verbatim>\<open>switch\<close> knows the
  three providers only. Every error raised inside the \<^verbatim>\<open>try\<close> is raised again with the
  provider's name in front.
\<close>

definition makeRequest ::
  "env \<Rightarrow> jstring \<Rightarrow> jstring \<Rightarrow> jstring \<Rightarrow> jstring \<Rightarrow> options \<Rightarrow> exn + ai_response" where
  "makeRequest e prov apiKey model p opts =
     (let key = toLowerCase (unicode_lower e) prov
      in if key = lit ''openai'' \<or> key = lit ''anthropic'' \<or> key = lit ''google'' then
           (case http_post e key apiKey model p opts of
              Inl msg \<Rightarrow> Inl (Error (prov @ lit '' API error: '' @ msg))
            | Inr reply \<Rightarrow> Inr reply)
         else if key = lit ''constructor'' \<or> key = lit ''__proto__'' then
           Inl (Error (prov @ lit '' API error: Unsupported provider: '' @ prov))
         else Inl (Error (lit ''Unsupported provider: '' @ prov)))"

section \<open>Tracking orchestrator (routes/usage.js)\<close>

text \<open>The module follows reports.js in \<^verbatim>\<open>src/server/routes/reports.js\<close>, from line 533 on.\<close>

record track_body =
  body_user_id :: "jstring option"
  body_team_id :: "jstring option"
  body_session_id :: "jstring option"
  body_model_provider :: "jstring option"
  body_model_name :: "jstring option"
  body_prompt :: "jstring option"
  body_api_key :: "jstring option"
  body_options :: "options option"

record track_reply =
  reply_id :: jstring
  reply_response :: "jstring option"
  reply_input_tokens :: "nat jsnum"
  reply_output_tokens :: "nat jsnum"
  reply_total_tokens :: "nat jsnum"
  reply_cost :: "rat jsnum"
  reply_status :: status
  reply_response_time_ms :: int
  reply_safety_flags :: safety_flag_map

datatype http_response =
    Status200 track_reply
  | Status400 jstring
  | Status403 jstring "(jstring \<times> reason) list"
  | Status404 jstring

text \<open>
  What handling one request does: the reply, the database afterwards, and the requests
  handed to the provider adapter (provider, model, prompt).
\<close>

record outcome =
  reply :: http_response
  db_after :: db
  dispatched :: "(jstring \<times> jstring \<times> jstring) list"

fun message :: "exn \<Rightarrow> jstring" where
  "message SyntaxError = lit ''Unexpected token in JSON''"
| "message (TypeError m) = m"
| "message (Error m) = m"

definition no_options :: options where
  "no_options = \<lparr>max_tokens = None, temperature = None, retry_of = None, opt_retry_count = None\<rparr>"

text \<open>
  The inner \<^verbatim>\<open>try\<close> block. It updates \<^verbatim>\<open>usageData\<close> in place, so an exception leaves the
  updates made before it; the block returns the exception, if any, and the object.
\<close>

definition try_call ::
  "env \<Rightarrow> usage_record \<Rightarrow> jstring \<Rightarrow> options \<Rightarrow> exn option \<times> usage_record" where
  "try_call e usageData api_key opts =
     (case makeRequest e (model_provider usageData) api_key (model_name usageData)
             (prompt usageData) opts of
        Inl aiError \<Rightarrow> (Some aiError, usageData)
      | Inr aiResponse \<Rightarrow>
          (let inputTokens = countTokens (unicode_lower e) (Some (prompt usageData))
                               (model_provider usageData);
               outputTokens = countTokens (unicode_lower e) (ai_text aiResponse)
                                (model_provider usageData);
               inputCost = js_times inputTokens (cost_per_input_token usageData);
               outputCost = js_times outputTokens (cost_per_output_token usageData);
               u1 = usageData
                      \<lparr>response := ai_text aiResponse,
                       input_tokens := inputTokens,
                       output_tokens := outputTokens,
                       total_tokens := js_add inputTokens outputTokens,
                       total_cost := js_add inputCost outputCost,
                       status := Success,
                       response_time_ms := end_time e - start_time e,
                       metadata := (metadata usageData)
                          \<lparr>actual_model :=
                              (case ai_model aiResponse of
                                 None \<Rightarrow> Some (model_name usageData)
                               | Some m \<Rightarrow> if m = [] then Some (model_name usageData) else Some m),
                           finish_reason := ai_finish_reason aiResponse\<rparr>\<rparr>
           in (case checkResponseQuality e (prompt usageData) (ai_text aiResponse) of
                 Inl err \<Rightarrow> (Some err, u1)
               | Inr qualityFlags \<Rightarrow>
                   if 0 < length qualityFlags
                   then (None, u1\<lparr>status := Hallucination,
                                   safety_flags := AList.update (lit ''quality_issues'')
                                      (QualityIssues qualityFlags) (safety_flags u1)\<rparr>)
                   else (None, u1))))"

definition request_options :: "track_body \<Rightarrow> options" where
  "request_options body = (case body_options body of None \<Rightarrow> no_options | Some os \<Rightarrow> os)"

text \<open>The object handed to \<^verbatim>\<open>checkFilters\<close>.\<close>

definition requestData :: "track_body \<Rightarrow> jstring \<Rightarrow> jstring \<Rightarrow> jstring \<Rightarrow> filter_request" where
  "requestData body prov model p =
     Request \<lparr>rd_user_id = body_user_id body, rd_team_id = body_team_id body,
              rd_model_provider = prov, rd_model_name = model, rd_prompt = p\<rparr>"

text \<open>The \<^verbatim>\<open>usageData\<close> object as first built, before the provider is called.\<close>

definition initial_usage ::
  "env \<Rightarrow> db \<Rightarrow> track_body \<Rightarrow> jstring \<Rightarrow> jstring \<Rightarrow> jstring \<Rightarrow> check_result \<Rightarrow> usage_record" where
  "initial_usage e d body prov model p safetyCheck =
     (let pr = getModelPricing d prov model
      in \<lparr>user_id = body_user_id body,
          team_id = body_team_id body,
          session_id = body_session_id body,
          model_provider = prov,
          model_name = model,
          prompt = p,
          response = None,
          input_tokens = Num 0,
          output_tokens = Num 0,
          total_tokens = Num 0,
          cost_per_input_token =
            (case pr of None \<Rightarrow> 0 | Some q \<Rightarrow> input_cost_per_1k_tokens q / 1000),
          cost_per_output_token =
            (case pr of None \<Rightarrow> 0 | Some q \<Rightarrow> output_cost_per_1k_tokens q / 1000),
          total_cost = Num 0,
          status = Processing,
          error_message = None,
          retry_count = 0,
          response_time_ms = 0,
          safety_flags = flags safetyCheck,
          metadata =
            \<lparr>user_agent = req_user_agent e, ip_address = req_ip e, timestamp = iso_now e,
             md_options = request_options body, actual_model = None, finish_reason = None\<rparr>\<rparr>)"

text \<open>The \<^verbatim>\<open>try\<close> block followed by its \<^verbatim>\<open>catch\<close>: the object that is then written.\<close>

definition settle :: "env \<Rightarrow> usage_record \<Rightarrow> jstring \<Rightarrow> options \<Rightarrow> usage_record" where
  "settle e usageData api_key opts =
     (case try_call e usageData api_key opts of
        (None, u) \<Rightarrow> u
      | (Some aiError, u) \<Rightarrow>
          u\<lparr>status := Failure,
            error_message := Some (message aiError),
            response_time_ms := end_time e - start_time e\<rparr>)"

text \<open>
  The values that the \<^verbatim>\<open>try\<close> block and its \<^verbatim>\<open>catch\<close> assign to \<^verbatim>\<open>usageData.status\<close>, in
  the order of the assignments: \<^verbatim>\<open>'success'\<close> (line 649) once the adapter has returned and
  the tokens are counted, \<^verbatim>\<open>'hallucination'\<close> (line 657) when the quality check returns
  flags, \<^verbatim>\<open>'failure'\<close> (line 663) when the adapter or the quality check raised.
\<close>

definition status_writes :: "env \<Rightarrow> usage_record \<Rightarrow> jstring \<Rightarrow> options \<Rightarrow> status list" where
  "status_writes e usageData api_key opts =
     (case makeRequest e (model_provider usageData) api_key (model_name usageData)
             (prompt usageData) opts of
        Inl aiError \<Rightarrow> [Failure]
      | Inr aiResponse \<Rightarrow>
          [Success] @
          (case checkResponseQuality e (prompt usageData) (ai_text aiResponse) of
             Inl err \<Rightarrow> [Failure]
           | Inr qualityFlags \<Rightarrow> if 0 < length qualityFlags then [Hallucination] else []))"

definition reply_of :: "jstring \<Rightarrow> usage_record \<Rightarrow> track_reply" where
  "reply_of logId usageData =
     \<lparr>reply_id = logId,
      reply_response = response usageData,
      reply_input_tokens = input_tokens usageData,
      reply_output_tokens = output_tokens usageData,
      reply_total_tokens = total_tokens usageData,
      reply_cost = total_cost usageData,
      reply_status = status usageData,
      reply_response_time_ms = response_time_ms usageData,
      reply_safety_flags = safety_flags usageData\<rparr>"

text \<open>The handler after the required-field check.\<close>

definition track_checked ::
  "env \<Rightarrow> db \<Rightarrow> track_body \<Rightarrow> jstring \<Rightarrow> jstring \<Rightarrow> jstring \<Rightarrow> jstring \<Rightarrow> outcome" where
  "track_checked e d body prov model p api_key =
     (let safetyCheck = checkFilters e d (requestData body prov model p)
      in if \<not> allowed safetyCheck
         then \<lparr>reply = Status403 (lit ''Request blocked by safety filters'') (reasons safetyCheck),
               db_after = d, dispatched = []\<rparr>
         else
           (let usageData = settle e (initial_usage e d body prov model p safetyCheck)
                               api_key (request_options body);
                logged = insertUsageLog (uuidv4 e) usageData d
            in \<lparr>reply = Status200 (reply_of (fst logged) usageData),
                db_after = snd logged,
                dispatched = [(prov, model, p)]\<rparr>))"

definition missing_fields :: "db \<Rightarrow> outcome" where
  "missing_fields d =
     \<lparr>reply = Status400 (lit ''Missing required fields: model_provider, model_name, prompt, api_key''),
      db_after = d, dispatched = []\<rparr>"

text \<open>
  The required-field check \<^verbatim>\<open>!model_provider || !model_name || !prompt || !api_key\<close>: a
  field passes when it is truthy.
\<close>

definition required_fields :: "track_body \<Rightarrow> (jstring \<times> jstring \<times> jstring \<times> jstring) option" where
  "required_fields body =
     (case (body_model_provider body, body_model_name body, body_prompt body, body_api_key body) of
        (Some prov, Some model, Some p, Some api_key) \<Rightarrow>
          if truthy (Some prov) \<and> truthy (Some model) \<and> truthy (Some p) \<and> truthy (Some api_key)
          then Some (prov, model, p, api_key)
          else None
      | _ \<Rightarrow> None)"

text \<open>\<^verbatim>\<open>POST /track\<close>.\<close>

definition track :: "env \<Rightarrow> db \<Rightarrow> track_body \<Rightarrow> outcome" where
  "track e d body =
     (case required_fields body of
        None \<Rightarrow> missing_fields d
      | Some (prov, model, p, api_key) \<Rightarrow> track_checked e d body prov model p api_key)"

subsection \<open>The router and the retry handler\<close>

text \<open>The two routes of the module that write: \<^verbatim>\<open>POST /track\<close> and \<^verbatim>\<open>POST /retry/:id\<close>.\<close>

datatype route = Track | Retry jstring

text \<open>The body that the retry handler builds from the stored row.\<close>

definition retryData :: "jstring \<Rightarrow> usage_record \<Rightarrow> jstring option \<Rightarrow> track_body" where
  "retryData ident originalLog api_key =
     \<lparr>body_user_id = user_id originalLog,
      body_team_id = team_id originalLog,
      body_session_id = session_id originalLog,
      body_model_provider = Some (model_provider originalLog),
      body_model_name = Some (model_name originalLog),
      body_prompt = Some (prompt originalLog),
      body_api_key = api_key,
      body_options = Some \<lparr>max_tokens = None, temperature = None,
                            retry_of = Some ident,
                            opt_retry_count = Some (retry_count originalLog + 1)\<rparr>\<rparr>"

text \<open>
  \<^verbatim>\<open>router.handle(req, res)\<close>: the router runs the handler of the route that the method and
  the URL of the request select. The retry handler answers an unknown id and a stored
  \<^verbatim>\<open>success\<close> itself; otherwise it replaces \<^verbatim>\<open>req.body\<close> by the body built from the row and
  calls \<^verbatim>\<open>router.handle(req, res)\<close> under the comment ``Forward to the track endpoint''.
  It changes neither the method nor the URL, so the router selects \<^verbatim>\<open>POST /retry/:id\<close>
  again. The result is \<open>None\<close> when the handling never ends.
\<close>

partial_function (option) handle :: "env \<Rightarrow> db \<Rightarrow> route \<Rightarrow> track_body \<Rightarrow> outcome option" where
  "handle e d r body =
     (case r of
        Track \<Rightarrow> Some (track e d body)
      | Retry ident \<Rightarrow>
          (case find (\<lambda>row. row_id row = ident) (usage_logs d) of
             None \<Rightarrow> Some \<lparr>reply = Status404 (lit ''Usage log not found''),
                            db_after = d, dispatched = []\<rparr>
           | Some row \<Rightarrow>
               if status (row_data row) = Success
               then Some \<lparr>reply = Status400 (lit ''Cannot retry successful request''),
                          db_after = d, dispatched = []\<rparr>
               else handle e d (Retry ident)
                      (retryData ident (row_data row) (body_api_key body))))"

text \<open>\<^verbatim>\<open>POST /retry/:id\<close> with the key in the body.\<close>

definition retry :: "env \<Rightarrow> db \<Rightarrow> jstring \<Rightarrow> jstring option \<Rightarrow> outcome option" where
  "retry e d ident api_key =
     handle e d (Retry ident)
       \<lparr>body_user_id = None, body_team_id = None, body_session_id = None,
        body_model_provider = None, body_model_name = None, body_prompt = None,
        body_api_key = api_key, body_options = None\<rparr>"

section \<open>Notions used in the statements\<close>

text \<open>
  What \<^verbatim>\<open>checkFilters\<close> does with one filter: it parses the rules and applies the filter.
  Either step may raise.
\<close>

definition evaluate :: "env \<Rightarrow> db \<Rightarrow> filter_request \<Rightarrow> safety_filter \<Rightarrow> exn + filter_result" where
  "evaluate e d rq f =
     (case JSON_parse (rules f) of Inl err \<Rightarrow> Inl err | Inr v \<Rightarrow> applyFilter e d f v rq)"

definition raises :: "env \<Rightarrow> db \<Rightarrow> filter_request \<Rightarrow> safety_filter \<Rightarrow> bool" where
  "raises e d rq f = (case evaluate e d rq f of Inl err \<Rightarrow> True | Inr r \<Rightarrow> False)"

text \<open>
  What one filter contributes when its evaluation returns: whether it denies, the entry it
  pushes on \<^verbatim>\<open>reasons\<close>, and the flags it returns.
\<close>

definition denies :: "env \<Rightarrow> db \<Rightarrow> filter_request \<Rightarrow> safety_filter \<Rightarrow> bool" where
  "denies e d rq f = (case evaluate e d rq f of Inl err \<Rightarrow> False | Inr r \<Rightarrow> \<not> fr_allowed r)"

definition denial :: "env \<Rightarrow> db \<Rightarrow> filter_request \<Rightarrow> safety_filter \<Rightarrow> jstring \<times> reason" where
  "denial e d rq f =
     (name f, case evaluate e d rq f of Inl err \<Rightarrow> NoReason | Inr r \<Rightarrow> fr_reason r)"

definition filter_flags :: "env \<Rightarrow> db \<Rightarrow> filter_request \<Rightarrow> safety_filter \<Rightarrow> flag_map option" where
  "filter_flags e d rq f = (case evaluate e d rq f of Inl err \<Rightarrow> None | Inr r \<Rightarrow> fr_flags r)"

definition add_flags ::
  "env \<Rightarrow> db \<Rightarrow> filter_request \<Rightarrow> safety_flag_map \<Rightarrow> safety_filter \<Rightarrow> safety_flag_map" where
  "add_flags e d rq acc f =
     (case filter_flags e d rq f of
        None \<Rightarrow> acc
      | Some fl \<Rightarrow> set_property (name f) (FilterFlags fl) acc)"

text \<open>The filters of a given name that returned flags, in evaluation order.\<close>

definition flagged_as :: "env \<Rightarrow> db \<Rightarrow> filter_request \<Rightarrow> jstring \<Rightarrow> safety_filter list" where
  "flagged_as e d rq n =
     filter (\<lambda>f. name f = n \<and> filter_flags e d rq f \<noteq> None) (getSafetyFilters d)"

text \<open>The rows that handling a request added to \<^verbatim>\<open>usage_logs\<close>.\<close>

definition written :: "db \<Rightarrow> outcome \<Rightarrow> usage_row list" where
  "written d out = drop (length (usage_logs d)) (usage_logs (db_after out))"

text \<open>The object that the track handler writes for a request that passed both checks.\<close>

definition tracked_record ::
  "env \<Rightarrow> db \<Rightarrow> track_body \<Rightarrow> jstring \<Rightarrow> jstring \<Rightarrow> jstring \<Rightarrow> jstring \<Rightarrow> usage_record" where
  "tracked_record e d body prov model p api_key =
     settle e (initial_usage e d body prov model p (checkFilters e d (requestData body prov model p)))
       api_key (request_options body)"

text \<open>The two equations between the measurement fields of a record.\<close>

definition totals_consistent :: "usage_record \<Rightarrow> bool" where
  "totals_consistent u \<longleftrightarrow>
     total_tokens u = js_add (input_tokens u) (output_tokens u)
     \<and> total_cost u = js_add (js_times (input_tokens u) (cost_per_input_token u))
                             (js_times (output_tokens u) (cost_per_output_token u))"

section \<open>Example data\<close>

text \<open>
  An environment whose regular expressions match nothing, whose aggregates are empty and
  whose provider rejects the key; variants replace the provider. The examples are ASCII
  text and rules of the expected types or \<^verbatim>\<open>null\<close>, so nothing is read from its case
  mapping and from its results for other rules; its arithmetic on prices is exact.
\<close>

definition plain_env :: env where
  "plain_env =
     \<lparr>rx_test = (\<lambda>pattern s. False),
      rx_count = (\<lambda>pattern s. 0),
      unicode_lower = (\<lambda>s. s),
      double_times = (\<lambda>a b. a * b),
      double_divide = (\<lambda>a b. a / b),
      double_plus = (\<lambda>a b. a + b),
      js_content = (\<lambda>v rq. Inr initial_result),
      js_cost = (\<lambda>d v rq. initial_result),
      js_rate = (\<lambda>d v rq. initial_result),
      js_model = (\<lambda>v rq. Inr initial_result),
      sum_cost_today = (\<lambda>logs uid. None),
      calls_last_minute = (\<lambda>logs uid. 0),
      calls_last_hour = (\<lambda>logs uid. 0),
      calls_today = (\<lambda>logs uid. 0),
      http_post = (\<lambda>prov key model p opts. Inl (lit ''Incorrect API key provided'')),
      uuidv4 = lit ''7d3f'',
      start_time = 1000,
      end_time = 1250,
      req_user_agent = None,
      req_ip = None,
      iso_now = lit ''2024-01-01T00:00:00.000Z''\<rparr>"

definition no_rules :: rule_set where
  "no_rules =
     \<lparr>blocked_keywords = None, max_prompt_length = None, check_pii = False, block_pii = False,
      max_cost_per_call = None, daily_spending_limit = None, max_calls_per_minute = None,
      max_calls_per_hour = None, max_calls_per_day = None, allowed_models = None,
      blocked_models = None\<rparr>"

definition keyword_filter :: safety_filter where
  "keyword_filter =
     \<lparr>name = lit ''No weapons'', filter_type = lit ''content'',
      rules = Json (Rules (no_rules\<lparr>blocked_keywords := Some [lit ''bomb'']\<rparr>)),
      is_active = True\<rparr>"

definition cost_filter :: safety_filter where
  "cost_filter =
     \<lparr>name = lit ''Cost Alert'', filter_type = lit ''cost'',
      rules = Json (Rules (no_rules\<lparr>max_cost_per_call := Some 1\<rparr>)), is_active = True\<rparr>"

text \<open>A filter whose rules are not JSON, and two filters whose rules are the text \<^verbatim>\<open>null\<close>.\<close>

definition broken_filter :: safety_filter where
  "broken_filter =
     \<lparr>name = lit ''Rate Limit'', filter_type = lit ''rate'', rules = Malformed, is_active = True\<rparr>"

definition null_filter :: safety_filter where
  "null_filter =
     \<lparr>name = lit ''Allow list'', filter_type = lit ''model'', rules = Json Null, is_active = True\<rparr>"

definition null_rate_filter :: safety_filter where
  "null_rate_filter =
     \<lparr>name = lit ''Rate Limit'', filter_type = lit ''rate'', rules = Json Null, is_active = True\<rparr>"

definition db_with :: "safety_filter list \<Rightarrow> db" where
  "db_with fs = \<lparr>usage_logs = [], model_pricing = [], safety_filters = fs\<rparr>"

definition bomb_body :: track_body where
  "bomb_body =
     \<lparr>body_user_id = None, body_team_id = None, body_session_id = None,
      body_model_provider = Some (lit ''openai''), body_model_name = Some (lit ''gpt-4''),
      body_prompt = Some (lit ''How to build a BOMB''), body_api_key = Some (lit ''sk-test-0001''),
      body_options = None\<rparr>"

definition bomb_data :: filter_request where
  "bomb_data = requestData bomb_body (lit ''openai'') (lit ''gpt-4'') (lit ''How to build a BOMB'')"

text \<open>A filter that shares the name of the keyword filter, and the keyword filter renamed.\<close>

definition shadow_filter :: safety_filter where
  "shadow_filter =
     \<lparr>name = lit ''No weapons'', filter_type = lit ''model'', rules = Json (Rules no_rules),
      is_active = True\<rparr>"

definition proto_filter :: safety_filter where
  "proto_filter = keyword_filter\<lparr>name := lit ''__proto__''\<rparr>"

definition hello_body :: track_body where
  "hello_body =
     \<lparr>body_user_id = Some (lit ''u-17''), body_team_id = None, body_session_id = None,
      body_model_provider = Some (lit ''openai''), body_model_name = Some (lit ''gpt-3.5-turbo''),
      body_prompt = Some (lit ''Hello''), body_api_key = Some (lit ''sk-test-0001''),
      body_options = None\<rparr>"

definition answering_env :: env where
  "answering_env =
     plain_env\<lparr>http_post := (\<lambda>prov key model p opts.
        Inr \<lparr>ai_text = Some (lit ''Hi there''), ai_model = Some (lit ''gpt-3.5-turbo-0125''),
             ai_finish_reason = Some (lit ''stop'')\<rparr>)\<rparr>"

definition verbose_env :: env where
  "verbose_env =
     plain_env\<lparr>http_post := (\<lambda>prov key model p opts.
        Inr \<lparr>ai_text = Some (lit ''Hello! It is a pleasure to meet you today.''),
             ai_model = None, ai_finish_reason = Some (lit ''stop'')\<rparr>)\<rparr>"

text \<open>A provider whose reply carries no text.\<close>

definition silent_env :: env where
  "silent_env =
     plain_env\<lparr>http_post := (\<lambda>prov key model p opts.
        Inr \<lparr>ai_text = None, ai_model = None, ai_finish_reason = None\<rparr>)\<rparr>"

definition priced_db :: db where
  "priced_db =
     \<lparr>usage_logs = [],
      model_pricing =
        [\<lparr>provider = lit ''openai'', pricing_model_name = lit ''gpt-3.5-turbo'',
          input_cost_per_1k_tokens = 1 / 1000, output_cost_per_1k_tokens = 2 / 1000,
          effective_date = 0, pricing_is_active = True\<rparr>],
      safety_filters = [cost_filter]\<rparr>"

text \<open>A stored row of a failed call, and the environment of a retry that the provider answers.\<close>

definition failed_log :: usage_row where
  "failed_log =
     \<lparr>row_id = lit ''7d3f'',
      row_data =
        \<lparr>user_id = Some (lit ''u-17''), team_id = None, session_id = None,
         model_provider = lit ''openai'', model_name = lit ''gpt-3.5-turbo'', prompt = lit ''Hello'',
         response = None, input_tokens = Num 0, output_tokens = Num 0, total_tokens = Num 0,
         cost_per_input_token = 0, cost_per_output_token = 0, total_cost = Num 0,
         status = Failure,
         error_message = Some (lit ''openai API error: Incorrect API key provided''),
         retry_count = 0, response_time_ms = 250, safety_flags = [],
         metadata =
           \<lparr>user_agent = None, ip_address = None, timestamp = lit ''2024-01-01T00:00:00.000Z'',
            md_options = no_options, actual_model = None, finish_reason = None\<rparr>\<rparr>\<rparr>"

definition failed_db :: db where
  "failed_db = \<lparr>usage_logs = [failed_log], model_pricing = [], safety_filters = []\<rparr>"

definition retry_env :: env where
  "retry_env = answering_env\<lparr>uuidv4 := lit ''a81c''\<rparr>"

text \<open>
  The \<^verbatim>\<open>prompt\<close> rule of \<^verbatim>\<open>schemas.usageTrack\<close> in utils/validator.js,
  \<^verbatim>\<open>Joi.string().min(1).max(50000).required()\<close>; no route applies the schema.
\<close>

definition schema_prompt_ok :: "jstring option \<Rightarrow> bool" where
  "schema_prompt_ok v = (case v of None \<Rightarrow> False | Some s \<Rightarrow> 1 \<le> length s \<and> length s \<le> 50000)"

definition long_body :: track_body where
  "long_body =
     \<lparr>body_user_id = None, body_team_id = None, body_session_id = None,
      body_model_provider = Some (lit ''openai''), body_model_name = Some (lit ''gpt-4''),
      body_prompt = Some (replicate 50001 0x61), body_api_key = Some (lit ''sk-test-0001''),
      body_options = None\<rparr>"

section \<open>The estimator as the specification words it\<close>

text \<open>
  The number of whitespace-separated non-empty words of a text: the number of places where
  a word ends, that is, where a code unit that is not whitespace is followed by whitespace
  or by the end of the text.
\<close>

fun spec_words :: "jstring \<Rightarrow> nat" where
  "spec_words [] = 0"
| "spec_words [c] = (if isSpace c then 0 else 1)"
| "spec_words (c # d # cs) = (if isSpace c then 0 else if isSpace d then 1 else 0) + spec_words (d # cs)"

text \<open>The provider factor, as an exact number; provider names are read without case.\<close>

definition spec_factor :: "(jstring \<Rightarrow> jstring) \<Rightarrow> jstring \<Rightarrow> rat" where
  "spec_factor unicode prov =
     (if toLowerCase unicode prov = lit ''openai'' then 13 / 10
      else if toLowerCase unicode prov = lit ''anthropic'' then 12 / 10
      else if toLowerCase unicode prov = lit ''google'' then 11 / 10
      else 125 / 100)"

text \<open>The ceiling of the number of words times the factor; 0 for an absent text.\<close>

definition spec_estimate :: "(jstring \<Rightarrow> jstring) \<Rightarrow> jstring option \<Rightarrow> jstring \<Rightarrow> nat" where
  "spec_estimate unicode text prov =
     (case text of
        None \<Rightarrow> 0
      | Some t \<Rightarrow> nat \<lceil>of_nat (spec_words t) * spec_factor unicode prov\<rceil>)"

text \<open>The mantissa of the double that \<^verbatim>\<open>countTokens\<close> multiplies by, for a provider name.\<close>

definition multiplier :: "(jstring \<Rightarrow> jstring) \<Rightarrow> jstring \<Rightarrow> nat" where
  "multiplier unicode prov =
     (case TOKEN_MULTIPLIERS (toLowerCase unicode prov) of
        Multiplier m \<Rightarrow> m
      | Inherited \<Rightarrow> mant_1_25
      | Undefined \<Rightarrow> mant_1_25)"

definition fifty_words :: jstring where
  "fifty_words = concat (replicate 50 (lit ''token ''))"

text \<open>Three words, separated by a no-break space and by an ideographic space.\<close>

definition spaced_text :: jstring where
  "spaced_text = lit ''one'' @ [0xA0] @ lit ''two'' @ [0x3000] @ lit ''three''"

section \<open>Evaluation\<close>

text \<open>The defining equations, for evaluating the model on the example data.\<close>

lemmas eval_defs =
  track_def track_checked_def required_fields_def truthy_def requestData_def request_options_def
  no_options_def checkFilters_def getSafetyFilters_def JSON_parse_def applyFilter_def
  applyContentFilter_def applyCostFilter_def applyRateFilter_def applyModelFilter_def
  initial_result_def deny_def set_flag_def set_property_def estimateTokenCount_def
  ceil_product_def round_to_53_def
  mant_1_3_def mant_1_2_def mant_1_1_def mant_1_25_def mant_0_7_def compute_floorlog
  getModelPricing_def insertUsageLog_def initial_usage_def settle_def try_call_def makeRequest_def
  status_writes_def countTokens_def TOKEN_MULTIPLIERS_def wordCount_def trim_def isSpace_def
  toLowerCase_def lower_ascii_def lit_def
  checkResponseQuality_def checkForHallucination_def checkForRepetition_def
  checkForIncompleteResponse_def checkForInappropriateContent_def reply_of_def missing_fields_def
  tracked_record_def written_def totals_consistent_def evaluate_def raises_def denies_def
  denial_def filter_flags_def flagged_as_def retryData_def countTokensForRequest_def
  check_loop.simps Let_def

lemmas data_defs =
  plain_env_def answering_env_def verbose_env_def silent_env_def priced_db_def hello_body_def
  bomb_body_def bomb_data_def db_with_def keyword_filter_def cost_filter_def broken_filter_def
  null_filter_def null_rate_filter_def shadow_filter_def proto_filter_def no_rules_def
  failed_log_def failed_db_def retry_env_def long_body_def

subsection \<open>Literals\<close>

lemma lit_eq_iff [simp]: "lit a = lit b \<longleftrightarrow> a = b"
proof -
  have "inj (of_char :: char \<Rightarrow> nat)" by (rule injI) simp
  then show ?thesis by (simp add: lit_def inj_map_eq_map)
qed

lemma length_lit [simp]: "length (lit s) = length s"
  by (simp add: lit_def)

section \<open>The policy engine\<close>

lemma check_loop_Cons:
  "check_loop e d rq (f # fs) res =
     (case evaluate e d rq f of
        Inl err \<Rightarrow> Inl err
      | Inr r \<Rightarrow>
          check_loop e d rq fs
            \<lparr>allowed = (allowed res \<and> fr_allowed r),
             reasons = reasons res @ (if fr_allowed r then [] else [(name f, fr_reason r)]),
             flags = (case fr_flags r of
                        None \<Rightarrow> flags res
                      | Some fl \<Rightarrow> set_property (name f) (FilterFlags fl) (flags res))\<rparr>)"
  by (cases res) (simp add: evaluate_def Let_def split: sum.splits option.splits)

declare check_loop.simps(2) [simp del]

lemma check_loop_raises:
  "\<exists>f \<in> set fs. raises e d rq f \<Longrightarrow> \<exists>err. check_loop e d rq fs res = Inl err"
proof (induction fs arbitrary: res)
  case Nil
  then show ?case by simp
next
  case (Cons f fs)
  show ?case
  proof (cases "evaluate e d rq f")
    case (Inl err)
    then show ?thesis by (simp add: check_loop_Cons)
  next
    case (Inr r)
    with Cons.prems have "\<exists>g \<in> set fs. raises e d rq g" by (auto simp add: raises_def)
    from Cons.IH [OF this] show ?thesis using Inr
      by (simp add: check_loop_Cons)
  qed
qed

lemma check_loop_returns:
  "\<forall>f \<in> set fs. \<not> raises e d rq f \<Longrightarrow>
   check_loop e d rq fs res =
     Inr \<lparr>allowed = (allowed res \<and> \<not> (\<exists>f \<in> set fs. denies e d rq f)),
          reasons = reasons res @ map (denial e d rq) (filter (denies e d rq) fs),
          flags = foldl (add_flags e d rq) (flags res) fs\<rparr>"
proof (induction fs arbitrary: res)
  case Nil
  then show ?case by simp
next
  case (Cons f fs)
  then obtain r where r: "evaluate e d rq f = Inr r"
    by (cases "evaluate e d rq f") (auto simp add: raises_def)
  from Cons.prems have rest: "\<forall>g \<in> set fs. \<not> raises e d rq g" by simp
  show ?case
    using r Cons.IH [OF rest]
    by (cases "fr_flags r")
       (auto simp add: check_loop_Cons denies_def denial_def filter_flags_def add_flags_def)
qed

lemma map_of_set_property:
  "map_of (set_property k v acc) n =
     (if k = lit ''__proto__'' then map_of acc n else if k = n then Some v else map_of acc n)"
  by (simp add: set_property_def update_conv')

lemma map_of_foldl_add_flags_aux:
  assumes P: "\<And>f. P f \<longleftrightarrow> name f = n \<and> filter_flags e d rq f \<noteq> None"
      and n: "n \<noteq> lit ''__proto__''"
  shows "map_of (foldl (add_flags e d rq) acc fs) n =
     (if filter P fs = [] then map_of acc n
      else map_option FilterFlags (filter_flags e d rq (last (filter P fs))))"
proof (induction fs rule: rev_induct)
  case Nil
  then show ?case by simp
next
  case (snoc f fs)
  show ?case
  proof (cases "P f")
    case True
    then have hits: "filter P (fs @ [f]) = filter P fs @ [f]" by simp
    from True P have "name f = n" and "filter_flags e d rq f \<noteq> None" by auto
    with n have "map_of (add_flags e d rq (foldl (add_flags e d rq) acc fs) f) n
        = map_option FilterFlags (filter_flags e d rq f)"
      by (auto simp add: add_flags_def map_of_set_property)
    then show ?thesis unfolding hits by simp
  next
    case False
    then have hits: "filter P (fs @ [f]) = filter P fs" by simp
    from False P have "name f \<noteq> n \<or> filter_flags e d rq f = None" by auto
    then have "map_of (add_flags e d rq (foldl (add_flags e d rq) acc fs) f) n
               = map_of (foldl (add_flags e d rq) acc fs) n"
      by (auto simp add: add_flags_def map_of_set_property split: option.splits)
    then show ?thesis unfolding hits using snoc.IH by simp
  qed
qed

lemma map_of_foldl_add_flags:
  "n \<noteq> lit ''__proto__'' \<Longrightarrow>
   map_of (foldl (add_flags e d rq) acc fs) n =
     (let hits = filter (\<lambda>f. name f = n \<and> filter_flags e d rq f \<noteq> None) fs
      in if hits = [] then map_of acc n
         else map_option FilterFlags (filter_flags e d rq (last hits)))"
  unfolding Let_def by (rule map_of_foldl_add_flags_aux) simp_all

text \<open>No filter leaves an entry under the name \<^verbatim>\<open>__proto__\<close>.\<close>

lemma map_of_foldl_add_flags_proto:
  "map_of (foldl (add_flags e d rq) acc fs) (lit ''__proto__'') = map_of acc (lit ''__proto__'')"
  by (induction fs arbitrary: acc)
     (simp_all add: add_flags_def map_of_set_property split: option.splits)

lemma checkFilters_returns:
  assumes "\<forall>f \<in> set (getSafetyFilters d). \<not> raises e d rq f"
  shows "checkFilters e d rq =
     \<lparr>allowed = \<not> (\<exists>f \<in> set (getSafetyFilters d). denies e d rq f),
      reasons = map (denial e d rq) (filter (denies e d rq) (getSafetyFilters d)),
      flags = foldl (add_flags e d rq) [] (getSafetyFilters d)\<rparr>"
  unfolding checkFilters_def using check_loop_returns [OF assms] by simp

lemma checkFilters_raises:
  assumes "\<exists>f \<in> set (getSafetyFilters d). raises e d rq f"
  shows "checkFilters e d rq =
     \<lparr>allowed = True, reasons = [],
      flags = [(lit ''error'', ErrorText (lit ''Safety filter check failed''))]\<rparr>"
proof -
  from check_loop_raises [OF assms]
  obtain err where
    "check_loop e d rq (getSafetyFilters d) \<lparr>allowed = True, reasons = [], flags = []\<rparr> = Inl err"
    by blast
  then show ?thesis by (simp add: checkFilters_def)
qed

lemma checkFilters_denied:
  assumes "\<not> allowed (checkFilters e d rq)"
  shows "reasons (checkFilters e d rq) = map (denial e d rq) (filter (denies e d rq) (getSafetyFilters d))"
    and "\<exists>f \<in> set (getSafetyFilters d). denies e d rq f"
proof -
  have returned: "\<forall>f \<in> set (getSafetyFilters d). \<not> raises e d rq f"
  proof (rule ccontr)
    assume "\<not> ?thesis"
    then have "\<exists>f \<in> set (getSafetyFilters d). raises e d rq f" by blast
    from checkFilters_raises [OF this] assms show False by simp
  qed
  from checkFilters_returns [OF returned] assms
  show "reasons (checkFilters e d rq) = map (denial e d rq) (filter (denies e d rq) (getSafetyFilters d))"
    and "\<exists>f \<in> set (getSafetyFilters d). denies e d rq f"
    by simp_all
qed

lemma filter_name_distinct:
  "distinct (map name fs) \<Longrightarrow> f \<in> set fs \<Longrightarrow> filter (\<lambda>g. name g = name f \<and> Q g) fs = (if Q f then [f] else [])"
proof (induction fs)
  case Nil
  then show ?case by simp
next
  case (Cons g gs)
  show ?case
  proof (cases "g = f")
    case True
    with Cons.prems have "name f \<notin> name ` set gs" by simp
    then have "\<forall>h \<in> set gs. name h \<noteq> name f" by (metis imageI)
    then have "filter (\<lambda>g. name g = name f \<and> Q g) gs = []" by (simp add: filter_empty_conv)
    with True show ?thesis by simp
  next
    case False
    with Cons.prems have "f \<in> set gs" and "name g \<noteq> name f" and "distinct (map name gs)"
      by (auto simp add: image_iff)
    with Cons.IH show ?thesis by simp
  qed
qed

text \<open>
  What raises and what does not. Rules that do not parse raise in every filter; rules
  that are \<^verbatim>\<open>null\<close> raise in a content and in a model filter; the cost and the rate filter
  and a filter of an unknown type raise for no rules that parse.
\<close>

lemma raises_malformed: "rules f = Malformed \<Longrightarrow> raises e d rq f"
  by (simp add: raises_def evaluate_def JSON_parse_def)

lemma raises_null:
  "rules f = Json Null \<Longrightarrow> filter_type f = lit ''content'' \<or> filter_type f = lit ''model'' \<Longrightarrow>
   raises e d rq f"
  by (auto simp add: raises_def evaluate_def JSON_parse_def applyFilter_def
        applyContentFilter_def applyModelFilter_def lit_def)

lemma raises_parsed:
  assumes "raises e d rq f"
  shows "rules f = Malformed \<or> filter_type f = lit ''content'' \<or> filter_type f = lit ''model''"
  using assms
  by (cases "rules f")
     (auto simp add: raises_def evaluate_def JSON_parse_def applyFilter_def split: if_splits)

text \<open>
  A cost or rate filter whose rules are \<^verbatim>\<open>null\<close> catches its own error: it allows, and
  reports the error in its flags.
\<close>

lemma null_rules_are_caught:
  assumes "rules f = Json Null" "filter_type f = lit ''rate''"
  shows "evaluate e d rq f = Inr \<lparr>fr_allowed = True, fr_reason = NoReason,
                                   fr_flags = Some [(lit ''rate_filter_error'', FBool True)]\<rparr>"
  using assms
  by (simp add: evaluate_def JSON_parse_def applyFilter_def applyRateFilter_def
        set_flag_def initial_result_def lit_def)

text \<open>
  C10. If the evaluation of any active filter raises, because its rules are not JSON or
  because the filter function raises on what they parse to, \<^verbatim>\<open>checkFilters\<close> returns
  \<open>allowed = True\<close> with no reasons and the single flag \<^verbatim>\<open>error\<close>, whatever the other
  filters decided: denials and flags collected before the exception are dropped.
\<close>

theorem filter_error_allows_request:
  assumes "\<exists>f \<in> set (getSafetyFilters d). raises e d rq f"
  shows "checkFilters e d rq =
     \<lparr>allowed = True, reasons = [],
      flags = [(lit ''error'', ErrorText (lit ''Safety filter check failed''))]\<rparr>"
  using assms by (rule checkFilters_raises)

theorem filter_error_allows_request_witness:
  "evaluate plain_env (db_with [keyword_filter, broken_filter]) bomb_data broken_filter
     = Inl SyntaxError
   \<and> denies plain_env (db_with [keyword_filter, broken_filter]) bomb_data keyword_filter
   \<and> checkFilters plain_env (db_with [keyword_filter, broken_filter]) bomb_data =
       \<lparr>allowed = True, reasons = [],
        flags = [(lit ''error'', ErrorText (lit ''Safety filter check failed''))]\<rparr>
   \<and> evaluate plain_env (db_with [keyword_filter, null_filter]) bomb_data null_filter
     = Inl (TypeError (lit ''Cannot read properties of null (reading allowed_models)''))
   \<and> denies plain_env (db_with [keyword_filter, null_filter]) bomb_data keyword_filter
   \<and> checkFilters plain_env (db_with [keyword_filter, null_filter]) bomb_data =
       \<lparr>allowed = True, reasons = [],
        flags = [(lit ''error'', ErrorText (lit ''Safety filter check failed''))]\<rparr>"
proof -
  let ?d = "db_with [keyword_filter, broken_filter]"
  let ?d' = "db_with [keyword_filter, null_filter]"
  have unparsed: "evaluate plain_env ?d bomb_data broken_filter = Inl SyntaxError"
    by (simp add: evaluate_def JSON_parse_def broken_filter_def)
  have null_rules: "evaluate plain_env ?d' bomb_data null_filter
     = Inl (TypeError (lit ''Cannot read properties of null (reading allowed_models)''))"
    by (simp add: evaluate_def JSON_parse_def applyFilter_def applyModelFilter_def
          null_filter_def lit_def)
  have bad: "\<exists>f \<in> set (getSafetyFilters ?d). raises plain_env ?d bomb_data f"
    using unparsed by (simp add: raises_def getSafetyFilters_def db_with_def broken_filter_def)
  have bad': "\<exists>f \<in> set (getSafetyFilters ?d'). raises plain_env ?d' bomb_data f"
    using null_rules by (simp add: raises_def getSafetyFilters_def db_with_def null_filter_def)
  have earlier: "denies plain_env ?d bomb_data keyword_filter"
    "denies plain_env ?d' bomb_data keyword_filter"
    by (simp_all add: eval_defs data_defs)
  from unparsed null_rules earlier
    filter_error_allows_request [OF bad] filter_error_allows_request [OF bad']
  show ?thesis by simp
qed

text \<open>
  C3, as the code has it. When the evaluation of no active filter raises, every filter is
  evaluated: the request is allowed exactly when no filter denies, \<^verbatim>\<open>reasons\<close> has one entry
  per denying filter, in order, and \<^verbatim>\<open>flags\<close> holds under each filter name the flags of the
  last filter of that name that returned any. With distinct filter names the flags of every
  filter are present. Nothing is said of the name \<^verbatim>\<open>__proto__\<close>.
\<close>

theorem checkFilters_evaluates_every_filter:
  assumes "\<forall>f \<in> set (getSafetyFilters d). \<not> raises e d rq f"
  shows "(allowed (checkFilters e d rq) \<longleftrightarrow> \<not> (\<exists>f \<in> set (getSafetyFilters d). denies e d rq f))
     \<and> reasons (checkFilters e d rq) =
         map (denial e d rq) (filter (denies e d rq) (getSafetyFilters d))
     \<and> (n \<noteq> lit ''__proto__'' \<longrightarrow>
          map_of (flags (checkFilters e d rq)) n =
            (if flagged_as e d rq n = [] then None
             else map_option FilterFlags (filter_flags e d rq (last (flagged_as e d rq n)))))
     \<and> (distinct (map name (getSafetyFilters d)) \<longrightarrow>
          (\<forall>f \<in> set (getSafetyFilters d). \<forall>fl.
              filter_flags e d rq f = Some fl \<longrightarrow> name f \<noteq> lit ''__proto__'' \<longrightarrow>
              map_of (flags (checkFilters e d rq)) (name f) = Some (FilterFlags fl)))"
proof -
  note eq = checkFilters_returns [OF assms]
  have by_name: "map_of (flags (checkFilters e d rq)) m =
         (if flagged_as e d rq m = [] then None
          else map_option FilterFlags (filter_flags e d rq (last (flagged_as e d rq m))))"
    if "m \<noteq> lit ''__proto__''" for m
    using map_of_foldl_add_flags [OF that, of e d rq "[]" "getSafetyFilters d"]
    by (simp add: eq flagged_as_def Let_def)
  have "map_of (flags (checkFilters e d rq)) (name f) = Some (FilterFlags fl)"
    if "distinct (map name (getSafetyFilters d))" "f \<in> set (getSafetyFilters d)"
       "filter_flags e d rq f = Some fl" "name f \<noteq> lit ''__proto__''" for f fl
  proof -
    from that have "flagged_as e d rq (name f) = [f]"
      unfolding flagged_as_def
      using filter_name_distinct [of "getSafetyFilters d" f "\<lambda>g. filter_flags e d rq g \<noteq> None"]
      by simp
    with that(3) by_name [OF that(4)] show ?thesis by simp
  qed
  with eq by_name show ?thesis by simp
qed

theorem checkFilters_evaluates_every_filter_witness:
  "\<not> (\<exists>f \<in> set (getSafetyFilters (db_with [keyword_filter, cost_filter])).
         raises plain_env (db_with [keyword_filter, cost_filter]) bomb_data f)
   \<and> \<not> allowed (checkFilters plain_env (db_with [keyword_filter, cost_filter]) bomb_data)
   \<and> reasons (checkFilters plain_env (db_with [keyword_filter, cost_filter]) bomb_data) =
       [(lit ''No weapons'', BlockedKeyword (lit ''bomb''))]
   \<and> map_of (flags (checkFilters plain_env (db_with [keyword_filter, cost_filter]) bomb_data))
        (lit ''Cost Alert'') = Some (FilterFlags [(lit ''no_pricing_info'', FBool True)])"
proof -
  let ?d = "db_with [keyword_filter, cost_filter]"
  have returned: "\<forall>f \<in> set (getSafetyFilters ?d). \<not> raises plain_env ?d bomb_data f"
    by (simp add: eval_defs data_defs)
  have denying: "map (denial plain_env ?d bomb_data) (filter (denies plain_env ?d bomb_data) (getSafetyFilters ?d))
      = [(lit ''No weapons'', BlockedKeyword (lit ''bomb''))]"
    by (simp add: eval_defs data_defs)
  have present: "keyword_filter \<in> set (getSafetyFilters ?d)" "denies plain_env ?d bomb_data keyword_filter"
    by (simp_all add: eval_defs data_defs)
  have names: "flagged_as plain_env ?d bomb_data (lit ''Cost Alert'') = [cost_filter]"
    by (simp add: eval_defs data_defs)
  have cost: "filter_flags plain_env ?d bomb_data cost_filter = Some [(lit ''no_pricing_info'', FBool True)]"
    by (simp add: eval_defs data_defs)
  have other: "lit ''Cost Alert'' \<noteq> lit ''__proto__''"
    by (simp add: lit_def)
  from checkFilters_evaluates_every_filter [OF returned, of "lit ''Cost Alert''"]
    returned denying present names cost other
  show ?thesis by auto
qed

text \<open>
  The claim as stated fails in three ways. A filter that raises, here a model filter whose
  rules are \<^verbatim>\<open>null\<close>, makes the whole check allow a request that another filter denies. Two
  filters of one name share one entry of \<^verbatim>\<open>flags\<close>, so the keyword filter's flag is replaced
  by the empty flags of its namesake. And the flags of a filter named \<^verbatim>\<open>__proto__\<close>, which
  denies the request, are in no entry at all.
\<close>

theorem checkFilters_evaluates_every_filter_counterexample:
  "denies plain_env (db_with [keyword_filter, null_filter]) bomb_data keyword_filter
   \<and> allowed (checkFilters plain_env (db_with [keyword_filter, null_filter]) bomb_data)
   \<and> reasons (checkFilters plain_env (db_with [keyword_filter, null_filter]) bomb_data) = []
   \<and> filter_flags plain_env (db_with [keyword_filter, shadow_filter]) bomb_data keyword_filter
       = Some [(lit ''blocked_keyword'', FStr (lit ''bomb''))]
   \<and> map_of (flags (checkFilters plain_env (db_with [keyword_filter, shadow_filter]) bomb_data))
        (lit ''No weapons'') = Some (FilterFlags [])
   \<and> filter_flags plain_env (db_with [proto_filter]) bomb_data proto_filter
       = Some [(lit ''blocked_keyword'', FStr (lit ''bomb''))]
   \<and> reasons (checkFilters plain_env (db_with [proto_filter]) bomb_data)
       = [(lit ''__proto__'', BlockedKeyword (lit ''bomb''))]
   \<and> flags (checkFilters plain_env (db_with [proto_filter]) bomb_data) = []"
  by (simp add: eval_defs data_defs)

section \<open>The track handler\<close>

lemma track_missing:
  "required_fields body = None \<Longrightarrow> track e d body = missing_fields d"
  by (simp add: track_def)

lemma track_denied:
  assumes "required_fields body = Some (prov, model, p, api_key)"
      and "\<not> allowed (checkFilters e d (requestData body prov model p))"
  shows "track e d body =
     \<lparr>reply = Status403 (lit ''Request blocked by safety filters'')
                (reasons (checkFilters e d (requestData body prov model p))),
      db_after = d, dispatched = []\<rparr>"
  using assms by (simp add: track_def track_checked_def)

lemma track_accepted:
  assumes "required_fields body = Some (prov, model, p, api_key)"
      and "allowed (checkFilters e d (requestData body prov model p))"
  shows "track e d body =
     \<lparr>reply = Status200 (reply_of (uuidv4 e) (tracked_record e d body prov model p api_key)),
      db_after = d\<lparr>usage_logs := usage_logs d @
         [\<lparr>row_id = uuidv4 e, row_data = tracked_record e d body prov model p api_key\<rparr>]\<rparr>,
      dispatched = [(prov, model, p)]\<rparr>"
  using assms
  by (simp add: track_def track_checked_def tracked_record_def insertUsageLog_def Let_def)

lemma settle_failed_call:
  assumes "makeRequest e (model_provider u) api_key (model_name u) (prompt u) opts = Inl err"
  shows "settle e u api_key opts =
     u\<lparr>status := Failure, error_message := Some (message err),
       response_time_ms := end_time e - start_time e\<rparr>"
  using assms by (simp add: settle_def try_call_def)




lemma initial_request:
  "model_provider (initial_usage e d body prov model p sc) = prov"
  "model_name (initial_usage e d body prov model p sc) = model"
  "prompt (initial_usage e d body prov model p sc) = p"
  "status (initial_usage e d body prov model p sc) = Processing"
  "safety_flags (initial_usage e d body prov model p sc) = flags sc"
  "total_tokens (initial_usage e d body prov model p sc) = Num 0"
  "total_cost (initial_usage e d body prov model p sc) = Num 0"
  "retry_count (initial_usage e d body prov model p sc) = 0"
  by (simp_all add: initial_usage_def Let_def)

text \<open>
  C1. A request that has the required fields and that the policy engine denies is answered
  with status 403 carrying one reason per denying filter; the database is unchanged, no row
  is written and nothing is handed to the provider adapter.
\<close>

theorem denied_request_is_not_persisted:
  assumes "required_fields body = Some (prov, model, p, api_key)"
      and "\<not> allowed (checkFilters e d (requestData body prov model p))"
  shows "reply (track e d body) =
           Status403 (lit ''Request blocked by safety filters'')
             (map (denial e d (requestData body prov model p))
                (filter (denies e d (requestData body prov model p)) (getSafetyFilters d)))
     \<and> (\<exists>f \<in> set (getSafetyFilters d). denies e d (requestData body prov model p) f)
     \<and> db_after (track e d body) = d
     \<and> written d (track e d body) = []
     \<and> dispatched (track e d body) = []"
  using track_denied [OF assms] checkFilters_denied [OF assms(2)]
  by (simp add: written_def)

theorem denied_request_is_not_persisted_witness:
  "reply (track plain_env (db_with [keyword_filter, cost_filter]) bomb_body) =
       Status403 (lit ''Request blocked by safety filters'') [(lit ''No weapons'', BlockedKeyword (lit ''bomb''))]
   \<and> db_after (track plain_env (db_with [keyword_filter, cost_filter]) bomb_body) =
       db_with [keyword_filter, cost_filter]
   \<and> dispatched (track plain_env (db_with [keyword_filter, cost_filter]) bomb_body) = []"
proof -
  let ?d = "db_with [keyword_filter, cost_filter]"
  let ?rd = "requestData bomb_body (lit ''openai'') (lit ''gpt-4'') (lit ''How to build a BOMB'')"
  have req: "required_fields bomb_body =
               Some (lit ''openai'', lit ''gpt-4'', lit ''How to build a BOMB'', lit ''sk-test-0001'')"
    by (simp add: eval_defs data_defs)
  have denied: "\<not> allowed (checkFilters plain_env ?d ?rd)"
    by (simp add: eval_defs data_defs)
  have denying: "map (denial plain_env ?d ?rd) (filter (denies plain_env ?d ?rd) (getSafetyFilters ?d))
                   = [(lit ''No weapons'', BlockedKeyword (lit ''bomb''))]"
    by (simp add: eval_defs data_defs)
  from denied_request_is_not_persisted [OF req denied] denying
  show ?thesis by simp
qed



lemma settle_answered:
  assumes "makeRequest e (model_provider u) api_key (model_name u) (prompt u) opts = Inr ai"
      and "checkResponseQuality e (prompt u) (ai_text ai) = Inr qf"
  shows "status (settle e u api_key opts) = (if qf = [] then Success else Hallucination)"
    and "qf \<noteq> [] \<Longrightarrow> map_of (safety_flags (settle e u api_key opts)) (lit ''quality_issues'') = Some (QualityIssues qf)"
    and "qf = [] \<Longrightarrow> safety_flags (settle e u api_key opts) = safety_flags u"
    and "response (settle e u api_key opts) = ai_text ai"
    and "input_tokens (settle e u api_key opts) = countTokens (unicode_lower e) (Some (prompt u)) (model_provider u)"
    and "output_tokens (settle e u api_key opts) = countTokens (unicode_lower e) (ai_text ai) (model_provider u)"
    and "total_cost (settle e u api_key opts) =
           js_add (js_times (countTokens (unicode_lower e) (Some (prompt u)) (model_provider u)) (cost_per_input_token u))
                  (js_times (countTokens (unicode_lower e) (ai_text ai) (model_provider u)) (cost_per_output_token u))"
  using assms by (simp_all add: settle_def try_call_def Let_def update_conv')

lemma long_response_is_flagged:
  assumes "length p * 5 < length r"
  shows "\<exists>qf. checkResponseQuality e p (Some r) = Inr ((lit ''potential_hallucination'') # qf)"
  using assms by (simp add: checkResponseQuality_def checkForHallucination_def)

lemma makeRequest_http_error:
  assumes "toLowerCase (unicode_lower e) prov = lit ''openai'' \<or> toLowerCase (unicode_lower e) prov = lit ''anthropic'' \<or> toLowerCase (unicode_lower e) prov = lit ''google''"
      and "http_post e (toLowerCase (unicode_lower e) prov) api_key model p opts = Inl msg"
  shows "makeRequest e prov api_key model p opts = Inl (Error (prov @ lit '' API error: '' @ msg))"
  using assms by (auto simp add: makeRequest_def Let_def)


text \<open>
  C4. When the provider adapter raises, for whatever cause, a request that has the required
  fields and passed the policy check writes exactly one row: its status is \<^verbatim>\<open>failure\<close>, its
  error message is the message of the adapter's error, its total cost and total tokens are 0;
  and the caller gets the ordinary status-200 reply built from that row, not an error.
\<close>

theorem failed_provider_call_is_recorded:
  assumes req: "required_fields body = Some (prov, model, p, api_key)"
      and ok: "allowed (checkFilters e d (requestData body prov model p))"
      and fail: "makeRequest e prov api_key model p (request_options body) = Inl err"
  defines "u \<equiv> tracked_record e d body prov model p api_key"
  shows "usage_logs (db_after (track e d body)) = usage_logs d @ [\<lparr>row_id = uuidv4 e, row_data = u\<rparr>]
     \<and> status u = Failure
     \<and> error_message u = Some (message err)
     \<and> total_cost u = Num 0
     \<and> total_tokens u = Num 0
     \<and> reply (track e d body) = Status200 (reply_of (uuidv4 e) u)
     \<and> reply_status (reply_of (uuidv4 e) u) = Failure
     \<and> reply_cost (reply_of (uuidv4 e) u) = Num 0
     \<and> reply_total_tokens (reply_of (uuidv4 e) u) = Num 0"
proof -
  let ?u0 = "initial_usage e d body prov model p (checkFilters e d (requestData body prov model p))"
  from fail have "makeRequest e (model_provider ?u0) api_key (model_name ?u0) (prompt ?u0)
                    (request_options body) = Inl err"
    by (simp add: initial_request)
  from settle_failed_call [OF this]
  have u: "u = ?u0\<lparr>status := Failure, error_message := Some (message err),
                   response_time_ms := end_time e - start_time e\<rparr>"
    by (simp add: u_def tracked_record_def)
  from track_accepted [OF req ok] u show ?thesis
    by (simp add: u_def [symmetric] initial_request reply_of_def)
qed

theorem failed_provider_call_is_recorded_witness:
  "map (\<lambda>row. (row_id row, status (row_data row), error_message (row_data row),
                total_cost (row_data row), total_tokens (row_data row)))
      (usage_logs (db_after (track plain_env priced_db hello_body)))
     = [(lit ''7d3f'', Failure, Some (lit ''openai API error: Incorrect API key provided''), Num 0, Num 0)]
   \<and> reply (track plain_env priced_db hello_body) =
       Status200 (reply_of (lit ''7d3f'')
         (tracked_record plain_env priced_db hello_body (lit ''openai'') (lit ''gpt-3.5-turbo'') (lit ''Hello'') (lit ''sk-test-0001'')))"
proof -
  have req: "required_fields hello_body = Some (lit ''openai'', lit ''gpt-3.5-turbo'', lit ''Hello'', lit ''sk-test-0001'')"
    by (simp add: eval_defs data_defs)
  have ok: "allowed (checkFilters plain_env priced_db (requestData hello_body (lit ''openai'') (lit ''gpt-3.5-turbo'') (lit ''Hello'')))"
    by (simp add: eval_defs data_defs)
  have fail: "makeRequest plain_env (lit ''openai'') (lit ''sk-test-0001'') (lit ''gpt-3.5-turbo'') (lit ''Hello'') (request_options hello_body)
                = Inl (Error (lit ''openai API error: Incorrect API key provided''))"
    by (simp add: eval_defs data_defs)
  have more: "usage_logs priced_db = []" "uuidv4 plain_env = lit ''7d3f''"
    by (simp_all add: data_defs)
  from failed_provider_call_is_recorded [OF req ok fail] more
  show ?thesis by simp
qed
text \<open>
  C5. Quality classification is reached only after the adapter returned: when the adapter
  raises, the written row is a \<^verbatim>\<open>failure\<close> whose flags are those of the policy check alone.
  When the adapter returns and the classifier returns flags, the status is \<^verbatim>\<open>success\<close> for
  no flag and \<^verbatim>\<open>hallucination\<close> for at least one; the reply is still the status-200 reply,
  the response is kept and the cost is the cost of the counted tokens. In particular a
  response more than five times as long as the prompt, with no honest-disclaimer pattern in
  it, is written as \<^verbatim>\<open>hallucination\<close>.
\<close>

theorem quality_flags_escalate_status:
  assumes req: "required_fields body = Some (prov, model, p, api_key)"
      and ok: "allowed (checkFilters e d (requestData body prov model p))"
  defines "u \<equiv> tracked_record e d body prov model p api_key"
  shows "(\<forall>err. makeRequest e prov api_key model p (request_options body) = Inl err \<longrightarrow>
            status u = Failure
            \<and> safety_flags u = flags (checkFilters e d (requestData body prov model p)))
     \<and> (\<forall>ai qf. makeRequest e prov api_key model p (request_options body) = Inr ai \<longrightarrow>
            checkResponseQuality e p (ai_text ai) = Inr qf \<longrightarrow>
            status u = (if qf = [] then Success else Hallucination)
            \<and> (qf \<noteq> [] \<longrightarrow> map_of (safety_flags u) (lit ''quality_issues'') = Some (QualityIssues qf))
            \<and> response u = ai_text ai
            \<and> total_cost u =
                 js_add (js_times (countTokens (unicode_lower e) (Some p) prov) (cost_per_input_token u))
                        (js_times (countTokens (unicode_lower e) (ai_text ai) prov) (cost_per_output_token u)))
     \<and> (\<forall>ai r. makeRequest e prov api_key model p (request_options body) = Inr ai \<longrightarrow>
            ai_text ai = Some r \<longrightarrow> length p * 5 < length r \<longrightarrow>
            \<not> (\<exists>pattern \<in> set [Honest_NoAccess, Honest_CannotBrowse, Honest_AsAnAI, Honest_NotAble].
                  rx_test e pattern r) \<longrightarrow>
            status u = Hallucination)
     \<and> reply (track e d body) = Status200 (reply_of (uuidv4 e) u)
     \<and> usage_logs (db_after (track e d body)) = usage_logs d @ [\<lparr>row_id = uuidv4 e, row_data = u\<rparr>]"
proof -
  let ?u0 = "initial_usage e d body prov model p (checkFilters e d (requestData body prov model p))"
  have u: "u = settle e ?u0 api_key (request_options body)"
    by (simp add: u_def tracked_record_def)
  have failed: "status u = Failure \<and> safety_flags u = flags (checkFilters e d (requestData body prov model p))"
    if "makeRequest e prov api_key model p (request_options body) = Inl err" for err
  proof -
    from that have "makeRequest e (model_provider ?u0) api_key (model_name ?u0) (prompt ?u0)
                      (request_options body) = Inl err"
      by (simp add: initial_request)
    from settle_failed_call [OF this] show ?thesis
      by (simp add: u initial_request)
  qed
  have answered: "status u = (if qf = [] then Success else Hallucination)
            \<and> (qf \<noteq> [] \<longrightarrow> map_of (safety_flags u) (lit ''quality_issues'') = Some (QualityIssues qf))
            \<and> response u = ai_text ai
            \<and> total_cost u =
                 js_add (js_times (countTokens (unicode_lower e) (Some p) prov) (cost_per_input_token u))
                        (js_times (countTokens (unicode_lower e) (ai_text ai) prov) (cost_per_output_token u))"
    if "makeRequest e prov api_key model p (request_options body) = Inr ai"
       "checkResponseQuality e p (ai_text ai) = Inr qf" for ai qf
  proof -
    from that have call: "makeRequest e (model_provider ?u0) api_key (model_name ?u0) (prompt ?u0)
                      (request_options body) = Inr ai"
      and quality: "checkResponseQuality e (prompt ?u0) (ai_text ai) = Inr qf"
      by (simp_all add: initial_request)
    have prices: "cost_per_input_token u = cost_per_input_token ?u0"
                 "cost_per_output_token u = cost_per_output_token ?u0"
      using call quality
      by (simp_all add: u settle_def try_call_def Let_def)
    from settle_answered [OF call quality] prices show ?thesis
      by (simp add: u initial_request)
  qed
  have long: "status u = Hallucination"
    if "makeRequest e prov api_key model p (request_options body) = Inr ai"
       "ai_text ai = Some r" "length p * 5 < length r" for ai r
  proof -
    from long_response_is_flagged [OF that(3)] that(2)
    obtain qf where "checkResponseQuality e p (ai_text ai) = Inr ((lit ''potential_hallucination'') # qf)"
      by auto
    from answered [OF that(1) this] show ?thesis by simp
  qed
  from track_accepted [OF req ok] failed answered long show ?thesis
    by (simp add: u_def [symmetric])
qed

theorem quality_flags_escalate_status_witness:
  "length (lit ''Hello'') * 5 < length (lit ''Hello! It is a pleasure to meet you today.'')
   \<and> status (tracked_record verbose_env priced_db hello_body
                (lit ''openai'') (lit ''gpt-3.5-turbo'') (lit ''Hello'') (lit ''sk-test-0001'')) = Hallucination
   \<and> total_cost (tracked_record verbose_env priced_db hello_body
                (lit ''openai'') (lit ''gpt-3.5-turbo'') (lit ''Hello'') (lit ''sk-test-0001'')) = Num (26 / 1000000)
   \<and> map (\<lambda>row. status (row_data row)) (usage_logs (db_after (track verbose_env priced_db hello_body)))
       = [Hallucination]"
proof -
  let ?ai = "\<lparr>ai_text = Some (lit ''Hello! It is a pleasure to meet you today.''),
              ai_model = None, ai_finish_reason = Some (lit ''stop'')\<rparr>"
  have req: "required_fields hello_body = Some (lit ''openai'', lit ''gpt-3.5-turbo'', lit ''Hello'', lit ''sk-test-0001'')"
    by (simp add: eval_defs data_defs)
  have ok: "allowed (checkFilters verbose_env priced_db (requestData hello_body (lit ''openai'') (lit ''gpt-3.5-turbo'') (lit ''Hello'')))"
    by (simp add: eval_defs data_defs)
  have call: "makeRequest verbose_env (lit ''openai'') (lit ''sk-test-0001'') (lit ''gpt-3.5-turbo'') (lit ''Hello'')
                (request_options hello_body) = Inr ?ai"
    by (simp add: eval_defs data_defs)
  have body_text: "ai_text ?ai = Some (lit ''Hello! It is a pleasure to meet you today.'')"
    by simp
  have long: "length (lit ''Hello'') * 5 < length (lit ''Hello! It is a pleasure to meet you today.'')"
    by (simp add: lit_def)
  have honest: "\<not> (\<exists>pattern \<in> set [Honest_NoAccess, Honest_CannotBrowse, Honest_AsAnAI, Honest_NotAble].
                  rx_test verbose_env pattern (lit ''Hello! It is a pleasure to meet you today.''))"
    by (simp add: data_defs)
  have cost: "total_cost (tracked_record verbose_env priced_db hello_body
                (lit ''openai'') (lit ''gpt-3.5-turbo'') (lit ''Hello'') (lit ''sk-test-0001'')) = Num (26 / 1000000)"
    by (simp add: eval_defs data_defs)
  have empty: "usage_logs priced_db = []"
    by (simp add: data_defs)
  note facts = quality_flags_escalate_status [OF req ok]
  from facts call body_text long honest
  have "status (tracked_record verbose_env priced_db hello_body
                (lit ''openai'') (lit ''gpt-3.5-turbo'') (lit ''Hello'') (lit ''sk-test-0001'')) = Hallucination"
    by blast
  moreover from facts empty
  have "usage_logs (db_after (track verbose_env priced_db hello_body)) =
          [\<lparr>row_id = uuidv4 verbose_env,
            row_data = tracked_record verbose_env priced_db hello_body
                (lit ''openai'') (lit ''gpt-3.5-turbo'') (lit ''Hello'') (lit ''sk-test-0001'')\<rparr>]"
    by simp
  ultimately show ?thesis using long cost by simp
qed

section \<open>The router and the retry handler\<close>

lemma handle_track: "handle e d Track body = Some (track e d body)"
  by (subst handle.simps) simp

lemma retry_of_unknown_is_rejected:
  assumes "find (\<lambda>row. row_id row = ident) (usage_logs d) = None"
  shows "handle e d (Retry ident) body =
     Some \<lparr>reply = Status404 (lit ''Usage log not found''), db_after = d, dispatched = []\<rparr>"
  using assms by (subst handle.simps) simp

lemma retry_of_success_is_rejected:
  assumes "find (\<lambda>row. row_id row = ident) (usage_logs d) = Some row"
      and "status (row_data row) = Success"
  shows "handle e d (Retry ident) body =
     Some \<lparr>reply = Status400 (lit ''Cannot retry successful request''), db_after = d,
           dispatched = []\<rparr>"
  using assms by (subst handle.simps) simp

text \<open>
  A retry of a stored row that is not a \<^verbatim>\<open>success\<close> never returns: each round finds the
  same row and hands the request to the router again.
\<close>

lemma retry_of_failure_never_returns:
  assumes "find (\<lambda>row. row_id row = ident) (usage_logs d) = Some row"
      and "status (row_data row) \<noteq> Success"
  shows "handle e d (Retry ident) body = None"
proof (rule ccontr)
  assume "handle e d (Retry ident) body \<noteq> None"
  then obtain out where out: "handle e d (Retry ident) body = Some out" by auto
  have "\<not> (\<exists>ident row. r = Retry ident
             \<and> find (\<lambda>row. row_id row = ident) (usage_logs d') = Some row
             \<and> status (row_data row) \<noteq> Success)"
    if "handle e' d' r body' = Some y" for e' d' r body' y
    using that
  proof (induction rule: handle.raw_induct [rotated 1, consumes 1, case_names step])
    case (step h e' d' r body' y)
    show ?case
    proof
      assume "\<exists>ident row. r = Retry ident
             \<and> find (\<lambda>row. row_id row = ident) (usage_logs d') = Some row
             \<and> status (row_data row) \<noteq> Success"
      then obtain ident' row' where r: "r = Retry ident'"
        and found: "find (\<lambda>row. row_id row = ident') (usage_logs d') = Some row'"
        and failed: "status (row_data row') \<noteq> Success"
        by blast
      from step(2) r found failed
      have "h e' d' (Retry ident') (retryData ident' (row_data row') (body_api_key body')) = Some y"
        by simp
      from step(1) [OF this] found failed show False by auto
    qed
  qed
  from this [OF out] assms show False by blast
qed


text \<open>Every row that the track handler writes has the retry count 0.\<close>

lemma written_retry_count:
  "\<forall>row \<in> set (written d (track e d body)). retry_count (row_data row) = 0"
proof (cases "required_fields body")
  case None
  then show ?thesis by (simp add: track_missing missing_fields_def written_def)
next
  case (Some fields)
  obtain prov model p api_key where fields: "fields = (prov, model, p, api_key)"
    by (cases fields) auto
  show ?thesis
  proof (cases "allowed (checkFilters e d (requestData body prov model p))")
    case True
    have "retry_count (settle e u k os) = retry_count u" for u k os
      by (simp add: settle_def try_call_def Let_def split: sum.splits option.splits prod.splits)
    with track_accepted [OF Some [unfolded fields] True]
    show ?thesis
      by (simp add: written_def tracked_record_def initial_request)
  next
    case False
    from track_denied [OF Some [unfolded fields] False]
    show ?thesis by (simp add: written_def)
  qed
qed

text \<open>
  C8, at a failing input. The store holds the failed call \<open>failed_log\<close>, whose retry
  count is 0, and the provider would answer. The retry of that row never returns: the
  handler finds the row, rewrites the body and hands the request back to the router, which
  selects the retry handler again. No row is written and no reply is sent.
\<close>

theorem retry_of_failed_request_never_returns:
  "find (\<lambda>row. row_id row = lit ''7d3f'') (usage_logs failed_db) = Some failed_log
   \<and> status (row_data failed_log) = Failure
   \<and> retry_count (row_data failed_log) = 0
   \<and> retry retry_env failed_db (lit ''7d3f'') (Some (lit ''sk-test-0002'')) = None"
proof -
  have found: "find (\<lambda>row. row_id row = lit ''7d3f'') (usage_logs failed_db) = Some failed_log"
    by (simp add: failed_db_def failed_log_def)
  have failed: "status (row_data failed_log) = Failure" "retry_count (row_data failed_log) = 0"
    by (simp_all add: failed_log_def)
  then have "status (row_data failed_log) \<noteq> Success" by simp
  from retry_of_failure_never_returns [OF found this] found failed
  show ?thesis by (simp add: retry_def)
qed

section \<open>The life of a record\<close>




text \<open>The status that is written is the last one assigned.\<close>

lemma settle_last_write:
  "status (settle e u api_key opts) = last (status_writes e u api_key opts)"
  by (simp add: settle_def try_call_def status_writes_def Let_def split: sum.splits)

text \<open>
  When the provider's reply has no text, the quality check raises after \<^verbatim>\<open>'success'\<close> was
  assigned, and the \<^verbatim>\<open>catch\<close> meant for the provider's errors turns the record into a
  \<^verbatim>\<open>failure\<close>.
\<close>

lemma quality_error_overwrites_success:
  assumes "makeRequest e (model_provider u) api_key (model_name u) (prompt u) opts = Inr ai"
      and "ai_text ai = None"
  shows "status_writes e u api_key opts = [Success, Failure]"
    and "status (settle e u api_key opts) = Failure"
  using assms
  by (simp_all add: settle_last_write) (simp_all add: status_writes_def checkResponseQuality_def)




section \<open>Request validation\<close>

lemma required_fields_None_iff:
  "required_fields body = None \<longleftrightarrow>
     \<not> truthy (body_model_provider body) \<or> \<not> truthy (body_model_name body)
     \<or> \<not> truthy (body_prompt body) \<or> \<not> truthy (body_api_key body)"
  by (simp add: required_fields_def truthy_def split: option.splits)

lemma missing_field_is_rejected:
  assumes "\<not> truthy (body_model_provider body) \<or> \<not> truthy (body_model_name body)
     \<or> \<not> truthy (body_prompt body) \<or> \<not> truthy (body_api_key body)"
  shows "reply (track e d body) =
           Status400 (lit ''Missing required fields: model_provider, model_name, prompt, api_key'')
     \<and> db_after (track e d body) = d \<and> dispatched (track e d body) = []"
  using assms track_missing [of body e d]
  by (simp add: required_fields_None_iff missing_fields_def)

text \<open>
  C9, at a failing input. A request with all four fields and a prompt of 50001 characters,
  which the schema's prompt rule excludes, passes the handler's check: it is handed to the
  provider adapter and a row is written.
\<close>

theorem overlong_prompt_is_tracked:
  "\<not> schema_prompt_ok (body_prompt long_body)
   \<and> dispatched (track plain_env (db_with []) long_body) =
       [(lit ''openai'', lit ''gpt-4'', replicate 50001 0x61)]
   \<and> map (\<lambda>row. (status (row_data row), length (prompt (row_data row))))
        (usage_logs (db_after (track plain_env (db_with []) long_body))) = [(Failure, 50001)]"
  by (simp add: eval_defs data_defs schema_prompt_ok_def)

section \<open>The token estimator\<close>

subsection \<open>Counting words\<close>

lemma split_runs_not_Nil: "split_runs sep s \<noteq> []"
  by (induction sep s rule: split_runs.induct) (auto split: list.splits)

lemma hd_split_runs_gen: "s \<noteq> [] \<Longrightarrow> hd (split_runs sep s) = [] \<longleftrightarrow> sep (hd s)"
  using split_runs_not_Nil [of sep]
  by (induction sep s rule: split_runs.induct) (auto split: list.splits)

lemma hd_split_runs: "hd (split_runs sep (c # cs)) = [] \<longleftrightarrow> sep c"
  using hd_split_runs_gen [of "c # cs" sep] by simp

lemma words_of_split_runs:
  "length (filter (\<lambda>word. 0 < length word) (split_runs isSpace s)) = spec_words s"
proof (induction isSpace s rule: split_runs.induct)
  case 1
  then show ?case by simp
next
  case (2 c)
  then show ?case by simp
next
  case (3 c d cs)
  show ?case
  proof (cases "isSpace c")
    case True
    with 3 show ?thesis by simp
  next
    case False
    obtain w ws where split: "split_runs isSpace (d # cs) = w # ws"
      using split_runs_not_Nil [of isSpace "d # cs"] by (cases "split_runs isSpace (d # cs)") auto
    from hd_split_runs [of isSpace d cs] split have w: "w = [] \<longleftrightarrow> isSpace d" by simp
    from 3(3) [OF False] split
    have IH: "length (filter (\<lambda>word. 0 < length word) (w # ws)) = spec_words (d # cs)" by simp
    show ?thesis
    proof (cases "isSpace d")
      case True
      with w IH False split show ?thesis by simp
    next
      case d: False
      with w IH False split show ?thesis by simp
    qed
  qed
qed

lemma spec_words_dropWhile: "spec_words (dropWhile isSpace s) = spec_words s"
  by (induction s rule: spec_words.induct) auto

lemma spec_words_snoc_space: "isSpace c \<Longrightarrow> spec_words (s @ [c]) = spec_words s"
  by (induction s rule: spec_words.induct) auto

lemma spec_words_strip_end: "spec_words (rev (dropWhile isSpace (rev s))) = spec_words s"
  by (induction s rule: rev_induct) (auto simp add: spec_words_snoc_space)

lemma spec_words_trim: "spec_words (trim s) = spec_words s"
  by (simp add: trim_def spec_words_strip_end spec_words_dropWhile)

lemma wordCount_spec_words: "wordCount t = spec_words t"
  using words_of_split_runs [of "trim t"] by (simp add: wordCount_def spec_words_trim)

subsection \<open>Rounding the product to a double\<close>

lemma round_to_53_small: "floorlog 2 p \<le> 53 \<Longrightarrow> round_to_53 p = p"
  by (simp add: round_to_53_def)

text \<open>Above 53 bits the result is one of the two neighbouring multiples of the unit.\<close>

lemma round_to_53_large:
  assumes "53 < floorlog 2 p"
  defines "s \<equiv> floorlog 2 p - 53"
  shows "(round_to_53 p = (p div 2 ^ s) * 2 ^ s \<and> p mod 2 ^ s \<le> 2 ^ (s - 1))
       \<or> (round_to_53 p = (p div 2 ^ s + 1) * 2 ^ s \<and> 2 ^ (s - 1) \<le> p mod 2 ^ s)"
  using assms by (auto simp add: round_to_53_def Let_def)

lemma floorlog_le_of_less: "p < 2 ^ w \<Longrightarrow> floorlog 2 p \<le> w"
  by (simp add: floorlog_le_iff)

lemma round_to_53_near:
  assumes "p < 2 ^ 85"
  shows "round_to_53 p \<le> p + 2 ^ 31 \<and> p \<le> round_to_53 p + 2 ^ 31"
proof (cases "floorlog 2 p \<le> 53")
  case True
  then show ?thesis by (simp add: round_to_53_small)
next
  case False
  define s where "s = floorlog 2 p - 53"
  from assms have "floorlog 2 p \<le> 85" by (rule floorlog_le_of_less)
  with False have s: "0 < s" "s \<le> 32" by (simp_all add: s_def)
  then have half: "(2::nat) ^ (s - 1) \<le> 2 ^ 31"
    by (intro power_increasing) simp_all
  from s have double: "(2::nat) ^ s = 2 * 2 ^ (s - 1)"
    by (cases s) simp_all
  have split: "p = (p div 2 ^ s) * 2 ^ s + p mod 2 ^ s" by (rule div_mult_mod_eq [symmetric])
  have rem: "p mod 2 ^ s < 2 ^ s" by simp
  from False round_to_53_large [of p]
  consider "round_to_53 p = (p div 2 ^ s) * 2 ^ s" "p mod 2 ^ s \<le> 2 ^ (s - 1)"
    | "round_to_53 p = (p div 2 ^ s + 1) * 2 ^ s" "2 ^ (s - 1) \<le> p mod 2 ^ s"
    by (auto simp add: s_def)
  then show ?thesis
  proof cases
    case 1
    with split half show ?thesis by linarith
  next
    case 2
    then have "round_to_53 p = (p div 2 ^ s) * 2 ^ s + 2 ^ s" by (simp add: algebra_simps)
    with 2 split half double rem show ?thesis by linarith
  qed
qed

lemma ceil_div_unit:
  assumes "j * 2 ^ 52 < (r::nat)" "r \<le> (j + 1) * 2 ^ 52"
  shows "(r + (2 ^ 52 - 1)) div 2 ^ 52 = j + 1"
proof (rule div_nat_eqI)
  from assms(1) show "2 ^ 52 * (j + 1) \<le> r + (2 ^ 52 - 1)" by simp
  from assms(2) show "r + (2 ^ 52 - 1) < 2 ^ 52 * Suc (j + 1)" by simp
qed

lemma ceil_product_between:
  assumes "n * m < 2 ^ 85"
      and "j * 2 ^ 52 + 2 ^ 31 < n * m"
      and "n * m + 2 ^ 31 < (j + 1) * 2 ^ 52"
  shows "ceil_product n m = j + 1"
proof -
  from round_to_53_near [OF assms(1)] assms(2,3)
  have "j * 2 ^ 52 < round_to_53 (n * m)" "round_to_53 (n * m) \<le> (j + 1) * 2 ^ 52"
    by linarith+
  then show ?thesis unfolding ceil_product_def by (rule ceil_div_unit)
qed

text \<open>Rounding does not cross a multiple of \<open>2 ^ 32\<close>: such a value is representable.\<close>

lemma round_to_53_grid:
  assumes "p < 2 ^ 85" "2 ^ 32 dvd k"
  shows "p \<le> k \<Longrightarrow> round_to_53 p \<le> k" and "k \<le> p \<Longrightarrow> k \<le> round_to_53 p"
proof -
  have "(p \<le> k \<longrightarrow> round_to_53 p \<le> k) \<and> (k \<le> p \<longrightarrow> k \<le> round_to_53 p)"
  proof (cases "floorlog 2 p \<le> 53")
    case True
    then show ?thesis by (simp add: round_to_53_small)
  next
    case False
    define s where "s = floorlog 2 p - 53"
    from assms(1) have "floorlog 2 p \<le> 85" by (rule floorlog_le_of_less)
    with False have s: "0 < s" "s \<le> 32" by (simp_all add: s_def)
    from s(2) have "(2::nat) ^ s dvd 2 ^ 32" by (rule le_imp_power_dvd)
    from this assms(2) have "2 ^ s dvd k" by (rule dvd_trans)
    then obtain c where k: "k = c * 2 ^ s" by (auto simp add: dvd_def mult.commute)
    have split: "p = (p div 2 ^ s) * 2 ^ s + p mod 2 ^ s" by (rule div_mult_mod_eq [symmetric])
    have rem: "p mod 2 ^ s < 2 ^ s" by simp
    have pos: "(0::nat) < 2 ^ (s - 1)" by simp
    have low: "c \<le> p div 2 ^ s" if "k \<le> p"
      using that by (simp add: k less_eq_div_iff_mult_less_eq)
    have high: "p div 2 ^ s < c" if "p \<le> k" "0 < p mod 2 ^ s"
    proof (rule ccontr)
      assume "\<not> p div 2 ^ s < c"
      then have "c * 2 ^ s \<le> (p div 2 ^ s) * 2 ^ s" by simp
      with split that k show False by linarith
    qed
    from False round_to_53_large [of p]
    consider "round_to_53 p = (p div 2 ^ s) * 2 ^ s" "p mod 2 ^ s \<le> 2 ^ (s - 1)"
      | "round_to_53 p = (p div 2 ^ s + 1) * 2 ^ s" "2 ^ (s - 1) \<le> p mod 2 ^ s"
      by (auto simp add: s_def)
    then show ?thesis
    proof cases
      case 1
      have "k \<le> round_to_53 p" if "k \<le> p"
        using low [OF that] by (simp add: 1 k)
      moreover have "round_to_53 p \<le> k" if "p \<le> k"
        using that split by (simp add: 1)
      ultimately show ?thesis by blast
    next
      case 2
      with pos have r: "0 < p mod 2 ^ s" by linarith
      have "round_to_53 p \<le> k" if "p \<le> k"
      proof -
        from high [OF that r] have "p div 2 ^ s + 1 \<le> c" by simp
        then have "(p div 2 ^ s + 1) * 2 ^ s \<le> c * 2 ^ s" by (rule mult_le_mono1)
        then show ?thesis by (simp add: 2 k)
      qed
      moreover have "k \<le> round_to_53 p" if "k \<le> p"
      proof -
        have "(p div 2 ^ s + 1) * 2 ^ s = (p div 2 ^ s) * 2 ^ s + 2 ^ s"
          by (simp add: algebra_simps)
        with split rem that 2(1) show ?thesis by linarith
      qed
      ultimately show ?thesis by blast
    qed
  qed
  then show "p \<le> k \<Longrightarrow> round_to_53 p \<le> k" and "k \<le> p \<Longrightarrow> k \<le> round_to_53 p"
    by blast+
qed

text \<open>
  A product that lies above a representable value by less than a quarter of the count
  rounds down to it.
\<close>

lemma round_to_53_down:
  assumes "p < 2 ^ 85" "2 ^ 32 dvd k" "k \<le> p" "0 < n" "n * 2 ^ 52 \<le> p" "4 * (p - k) < n"
  shows "round_to_53 p = k"
proof (cases "floorlog 2 p \<le> 53")
  case True
  then have "p < 2 ^ 53" by (rule floorlog_leD) simp
  with assms(5) have "n * 2 ^ 52 < 2 * 2 ^ 52" by simp
  then have "n < 2" by (simp only: mult_less_cancel2) 
  with assms(4,6,3) have "p = k" by simp
  with True show ?thesis by (simp add: round_to_53_small)
next
  case False
  define s where "s = floorlog 2 p - 53"
  from assms(1) have "floorlog 2 p \<le> 85" by (rule floorlog_le_of_less)
  with False have s: "0 < s" "s \<le> 32" "floorlog 2 p = s + 53" by (simp_all add: s_def)
  from s(2) have "(2::nat) ^ s dvd 2 ^ 32" by (rule le_imp_power_dvd)
  from this assms(2) have "2 ^ s dvd k" by (rule dvd_trans)
  then obtain c where k: "k = c * 2 ^ s" by (auto simp add: dvd_def mult.commute)
  from assms(4,5) have "0 < p" by (cases "p = 0") simp_all
  then have "p < 2 ^ floorlog 2 p" using floorlog_bounds [of p 2] by simp
  with assms(5) s(3) have "n * 2 ^ 52 < 2 ^ (s + 1) * 2 ^ 52"
    by (simp add: power_add)
  then have n: "n < 2 ^ (s + 1)" by (simp only: mult_less_cancel2)
  from s(1) have "(2::nat) ^ (s + 1) = 4 * 2 ^ (s - 1)" by (cases s) simp_all
  with n assms(6) have eps: "p - k < 2 ^ (s - 1)" by linarith
  from s(1) have "(2::nat) ^ s = 2 * 2 ^ (s - 1)" by (cases s) simp_all
  with eps have small: "p - k < 2 ^ s" by linarith
  from assms(3) have p: "p = c * 2 ^ s + (p - k)" by (simp add: k)
  have q: "p div 2 ^ s = c"
    by (subst p) (simp add: small)
  have r: "p mod 2 ^ s = p - k"
    by (subst p) (simp add: small)
  from False round_to_53_large [of p] eps
  have "round_to_53 p = (p div 2 ^ s) * 2 ^ s"
    by (auto simp add: s_def [symmetric] r)
  then show ?thesis by (simp add: q k)
qed

lemma ceil_product_0: "ceil_product 0 m = 0"
proof -
  have "floorlog 2 (0::nat) = 0" by (simp add: floorlog_eq_zero_iff)
  then have "round_to_53 0 = 0" by (simp add: round_to_53_small)
  then show ?thesis by (simp add: ceil_product_def)
qed

lemma product_bound:
  assumes "n < 2 ^ 32" "m < 2 ^ 53"
  shows "n * m < (2::nat) ^ 85"
proof -
  from assms have "n * m < 2 ^ 32 * 2 ^ 53"
    by (intro mult_strict_mono) simp_all
  then show ?thesis by (simp add: power_add [symmetric])
qed

lemma dvd_unit_multiple: "(2::nat) ^ 32 dvd i * 2 ^ 52"
proof -
  have "(2::nat) ^ 32 dvd 2 ^ 52" by (rule le_imp_power_dvd) simp
  then show ?thesis by (rule dvd_mult)
qed

lemma powers: "(2::nat) ^ 52 = 4503599627370496" "(2::nat) ^ 31 = 2147483648"
  "(2::nat) ^ 32 = 4294967296" "(2::nat) ^ 53 = 9007199254740992"
  by simp_all

text \<open>
  The mantissas are the doubles nearest to the decimal factors: ten times the mantissa
  differs from the factor's numerator times \<open>2 ^ 52\<close> by at most 4.
\<close>

lemma scaled_1_3: "10 * (n * mant_1_3) = 13 * n * 2 ^ 52 + 2 * n"
  by (simp add: mant_1_3_def)

lemma scaled_1_2: "10 * (n * mant_1_2) + 2 * n = 12 * n * 2 ^ 52"
  by (simp add: mant_1_2_def)

lemma scaled_1_1: "10 * (n * mant_1_1) = 11 * n * 2 ^ 52 + 4 * n"
  by (simp add: mant_1_1_def)

lemma scaled_1_25: "4 * (n * mant_1_25) = 5 * n * 2 ^ 52"
  by (simp add: mant_1_25_def)

text \<open>When the exact product is not an integer, rounding cannot reach the next integer.\<close>

lemma ceil_product_fraction_above:
  assumes n: "n < 2 ^ 32" and m: "m < 2 ^ 53"
      and scaled: "10 * (n * m) = a * n * 2 ^ 52 + e * n" and e: "e \<le> 4"
      and split: "a * n = 10 * j + r" and r: "1 \<le> r" "r \<le> 9"
  shows "ceil_product n m = j + 1"
proof (rule ceil_product_between)
  from n m show "n * m < 2 ^ 85" by (rule product_bound)
  have "10 * (n * m) = (10 * j + r) * 2 ^ 52 + e * n"
    using scaled by (simp only: split)
  then have eq: "10 * (n * m) = 10 * (j * 4503599627370496) + r * 4503599627370496 + e * n"
    by (simp add: algebra_simps)
  from e have en: "e * n \<le> 4 * n" by (rule mult_le_mono1)
  from eq en r n show "j * 2 ^ 52 + 2 ^ 31 < n * m"
    unfolding powers by linarith
  from eq en r n have "n * m + 2 ^ 31 < j * 2 ^ 52 + 2 ^ 52"
    unfolding powers by linarith
  then show "n * m + 2 ^ 31 < (j + 1) * 2 ^ 52"
    by (simp only: add_mult_distrib mult_1)
qed

lemma ceil_product_fraction_below:
  assumes n: "n < 2 ^ 32" and m: "m < 2 ^ 53"
      and scaled: "10 * (n * m) + e * n = a * n * 2 ^ 52" and e: "e \<le> 4"
      and split: "a * n = 10 * j + r" and r: "1 \<le> r" "r \<le> 9"
  shows "ceil_product n m = j + 1"
proof (rule ceil_product_between)
  from n m show "n * m < 2 ^ 85" by (rule product_bound)
  have "10 * (n * m) + e * n = (10 * j + r) * 2 ^ 52"
    using scaled by (simp only: split)
  then have eq: "10 * (n * m) + e * n = 10 * (j * 4503599627370496) + r * 4503599627370496"
    by (simp add: algebra_simps)
  from e have en: "e * n \<le> 4 * n" by (rule mult_le_mono1)
  from eq en r n show "j * 2 ^ 52 + 2 ^ 31 < n * m"
    unfolding powers by linarith
  from eq en r n have "n * m + 2 ^ 31 < j * 2 ^ 52 + 2 ^ 52"
    unfolding powers by linarith
  then show "n * m + 2 ^ 31 < (j + 1) * 2 ^ 52"
    by (simp only: add_mult_distrib mult_1)
qed
lemma mant_bounds: "mant_1_3 < 2 ^ 53" "mant_1_2 < 2 ^ 53" "mant_1_1 < 2 ^ 53" "mant_1_25 < 2 ^ 53"
  by (simp_all add: mant_1_3_def mant_1_2_def mant_1_1_def mant_1_25_def)
lemma ceil_div_10:
  fixes x j r :: nat
  assumes "x = 10 * j + r" "1 \<le> r" "r \<le> 9"
  shows "(x + 9) div 10 = j + 1"
proof (rule div_nat_eqI)
  from assms show "10 * (j + 1) \<le> x + 9" by simp
  from assms show "x + 9 < 10 * Suc (j + 1)" by simp
qed

lemma remainder_10:
  fixes x :: nat
  assumes "\<not> 10 dvd x"
  shows "1 \<le> x mod 10" "x mod 10 \<le> 9"
proof -
  from assms have "x mod 10 \<noteq> 0" by (simp add: mod_eq_0_iff_dvd)
  then show "1 \<le> x mod 10" by simp
  have "x mod 10 < 10" by simp
  then show "x mod 10 \<le> 9" by linarith
qed

lemma not_dvd_13:
  fixes n :: nat
  assumes "n mod 10 \<noteq> 0"
  shows "\<not> 10 dvd 13 * n"
proof
  assume "10 dvd 13 * n"
  then have "10 dvd 7 * (13 * n)" by (rule dvd_mult)
  then have "10 dvd 10 * (9 * n) + n" by (simp add: algebra_simps)
  moreover have "10 dvd 10 * (k * n)" for k by simp
  ultimately have "10 dvd n" by (simp only: dvd_add_right_iff)
  with assms show False by (simp add: mod_eq_0_iff_dvd)
qed

lemma not_dvd_11:
  fixes n :: nat
  assumes "n mod 10 \<noteq> 0"
  shows "\<not> 10 dvd 11 * n"
proof
  assume "10 dvd 11 * n"
  then have "10 dvd 10 * n + n" by (simp add: algebra_simps)
  moreover have "10 dvd 10 * n" by simp
  ultimately have "10 dvd n" by (simp only: dvd_add_right_iff)
  with assms show False by (simp add: mod_eq_0_iff_dvd)
qed

lemma not_dvd_12:
  fixes n :: nat
  assumes "n mod 5 \<noteq> 0"
  shows "\<not> 10 dvd 12 * n"
proof
  assume "10 dvd 12 * n"
  moreover have "(5::nat) dvd 10" by simp
  ultimately have "5 dvd 12 * n" by (rule dvd_trans [rotated])
  then have "5 dvd 3 * (12 * n)" by (rule dvd_mult)
  then have "5 dvd 5 * (7 * n) + n" by (simp add: algebra_simps)
  moreover have "5 dvd 5 * (7 * n)" by simp
  ultimately have "5 dvd n" by (simp only: dvd_add_right_iff)
  with assms show False by (simp add: mod_eq_0_iff_dvd)
qed

text \<open>Factor 1.3: the double product gives the exact ceiling.\<close>

lemma ceil_product_1_3:
  assumes "n < 2 ^ 32"
  shows "ceil_product n mant_1_3 = (13 * n + 9) div 10"
proof (cases "n mod 10 = 0")
  case True
  then obtain i where n: "n = 10 * i" by (auto simp add: mod_eq_0_iff_dvd dvd_def)
  show ?thesis
  proof (cases "i = 0")
    case True
    with n show ?thesis by (simp add: ceil_product_0)
  next
    case False
    have p: "n * mant_1_3 = 13 * i * 2 ^ 52 + 2 * i"
      by (simp add: n mant_1_3_def)
    have bound: "n * mant_1_3 < 2 ^ 85"
      using assms mant_bounds(1) by (rule product_bound)
    have grid: "2 ^ 32 dvd 13 * i * 2 ^ 52"
      by (rule dvd_unit_multiple)
    have below: "13 * i * 2 ^ 52 \<le> n * mant_1_3"
      by (simp add: p)
    have unit: "n * 2 ^ 52 \<le> n * mant_1_3"
      by (simp add: mant_1_3_def)
    from p have "n * mant_1_3 - 13 * i * 2 ^ 52 = 2 * i" by simp
    with False have close: "4 * (n * mant_1_3 - 13 * i * 2 ^ 52) < n"
      by (simp add: n)
    from False n have pos: "0 < n" by simp
    from round_to_53_down [OF bound grid below pos unit close]
    have "ceil_product n mant_1_3 = 13 * i"
      by (simp add: ceil_product_def)
    with n show ?thesis by simp
  qed
next
  case False
  define j where "j = 13 * n div 10"
  define r where "r = 13 * n mod 10"
  have split: "13 * n = 10 * j + r" by (simp only: j_def r_def mult_div_mod_eq)
  from remainder_10 [OF not_dvd_13 [OF False]] have r: "1 \<le> r" "r \<le> 9"
    by (simp_all only: r_def)
  have "ceil_product n mant_1_3 = j + 1"
    using assms mant_bounds(1) scaled_1_3 _ split r
    by (rule ceil_product_fraction_above) simp
  with ceil_div_10 [OF split r] show ?thesis by simp
qed

text \<open>Factor 1.2: the double lies below the factor, and the ceiling is exact again.\<close>

lemma ceil_product_1_2:
  assumes "n < 2 ^ 32"
  shows "ceil_product n mant_1_2 = (12 * n + 9) div 10"
proof (cases "n mod 5 = 0")
  case True
  then obtain i where n: "n = 5 * i" by (auto simp add: mod_eq_0_iff_dvd dvd_def)
  show ?thesis
  proof (cases "i = 0")
    case True
    with n show ?thesis by (simp add: ceil_product_0)
  next
    case False
    then obtain j where i: "6 * i = j + 1" by (cases i) simp_all
    have p: "n * mant_1_2 + i = 6 * i * 2 ^ 52"
      by (simp add: n mant_1_2_def)
    have bound: "n * mant_1_2 < 2 ^ 85"
      using assms mant_bounds(2) by (rule product_bound)
    have grid: "2 ^ 32 dvd 6 * i * 2 ^ 52"
      by (rule dvd_unit_multiple)
    from p have "n * mant_1_2 \<le> 6 * i * 2 ^ 52" by linarith
    with bound grid have upper: "round_to_53 (n * mant_1_2) \<le> 6 * i * 2 ^ 52"
      by (rule round_to_53_grid(1))
    from assms n have "i < 2 ^ 32" by simp
    with round_to_53_near [OF bound] p
    have "6 * i * 2 ^ 52 < round_to_53 (n * mant_1_2) + 2 ^ 52"
      unfolding powers by linarith
    then have lower: "j * 2 ^ 52 < round_to_53 (n * mant_1_2)"
      by (simp add: i)
    from upper have "round_to_53 (n * mant_1_2) \<le> (j + 1) * 2 ^ 52"
      by (simp only: i)
    with lower have "ceil_product n mant_1_2 = j + 1"
      unfolding ceil_product_def by (rule ceil_div_unit)
    with n i show ?thesis by simp
  qed
next
  case False
  define j where "j = 12 * n div 10"
  define r where "r = 12 * n mod 10"
  have split: "12 * n = 10 * j + r" by (simp only: j_def r_def mult_div_mod_eq)
  from remainder_10 [OF not_dvd_12 [OF False]] have r: "1 \<le> r" "r \<le> 9"
    by (simp_all only: r_def)
  have "ceil_product n mant_1_2 = j + 1"
    using assms mant_bounds(2) scaled_1_2 _ split r
    by (rule ceil_product_fraction_below) simp
  with ceil_div_10 [OF split r] show ?thesis by simp
qed

text \<open>Factor 1.25 is a double itself.\<close>

lemma ceil_product_1_25:
  assumes "n < 2 ^ 32"
  shows "ceil_product n mant_1_25 = (5 * n + 3) div 4"
proof (cases "n mod 4 = 0")
  case True
  then obtain i where n: "n = 4 * i" by (auto simp add: mod_eq_0_iff_dvd dvd_def)
  have p: "n * mant_1_25 = 5 * i * 2 ^ 52"
    by (simp add: n mant_1_25_def)
  have bound: "n * mant_1_25 < 2 ^ 85"
    using assms mant_bounds(4) by (rule product_bound)
  have grid: "2 ^ 32 dvd 5 * i * 2 ^ 52"
    by (rule dvd_unit_multiple)
  from round_to_53_grid [OF bound grid] p
  have "round_to_53 (n * mant_1_25) = 5 * i * 2 ^ 52"
    by (simp only: order_refl le_antisym)
  then have "ceil_product n mant_1_25 = 5 * i"
    by (simp add: ceil_product_def)
  with n show ?thesis by simp
next
  case False
  define j where "j = 5 * n div 4"
  define r where "r = 5 * n mod 4"
  have split: "5 * n = 4 * j + r" by (simp only: j_def r_def mult_div_mod_eq)
  have "\<not> 4 dvd 5 * n"
  proof
    assume "4 dvd 5 * n"
    then have "4 dvd 4 * n + n" by (simp add: algebra_simps)
    moreover have "4 dvd 4 * n" by simp
    ultimately have "4 dvd n" by (simp only: dvd_add_right_iff)
    with False show False by (simp add: mod_eq_0_iff_dvd)
  qed
  then have "r \<noteq> 0" by (simp add: r_def mod_eq_0_iff_dvd)
  moreover have "r < 4" by (simp add: r_def)
  ultimately have r: "1 \<le> r" "r \<le> 3" by simp_all
  from scaled_1_25 [of n] have "4 * (n * mant_1_25) = (4 * j + r) * 2 ^ 52"
    by (simp only: split)
  then have eq: "4 * (n * mant_1_25) = 4 * (j * 4503599627370496) + r * 4503599627370496"
    by (simp add: algebra_simps)
  have "ceil_product n mant_1_25 = j + 1"
  proof (rule ceil_product_between)
    from assms mant_bounds(4) show "n * mant_1_25 < 2 ^ 85" by (rule product_bound)
    from eq r show "j * 2 ^ 52 + 2 ^ 31 < n * mant_1_25"
      unfolding powers by linarith
    from eq r have "n * mant_1_25 + 2 ^ 31 < j * 2 ^ 52 + 2 ^ 52"
      unfolding powers by linarith
    then show "n * mant_1_25 + 2 ^ 31 < (j + 1) * 2 ^ 52"
      by (simp only: add_mult_distrib mult_1)
  qed
  moreover have "(5 * n + 3) div 4 = j + 1"
  proof (rule div_nat_eqI)
    from split r show "4 * (j + 1) \<le> 5 * n + 3" by simp
    from split r show "5 * n + 3 < 4 * Suc (j + 1)" by simp
  qed
  ultimately show ?thesis by simp
qed

text \<open>
  Factor 1.1: the double lies above the factor by enough for the product to round up past
  an integer, so the result is the exact ceiling or one more; it is exact when the exact
  product is not an integer.
\<close>

lemma ceil_product_1_1:
  assumes "n < 2 ^ 32"
  shows "(11 * n + 9) div 10 \<le> ceil_product n mant_1_1"
    and "ceil_product n mant_1_1 \<le> (11 * n + 9) div 10 + 1"
    and "n mod 10 \<noteq> 0 \<Longrightarrow> ceil_product n mant_1_1 = (11 * n + 9) div 10"
proof -
  have exact: "ceil_product n mant_1_1 = (11 * n + 9) div 10" if "n mod 10 \<noteq> 0"
  proof -
    define j where "j = 11 * n div 10"
    define r where "r = 11 * n mod 10"
    have split: "11 * n = 10 * j + r" by (simp only: j_def r_def mult_div_mod_eq)
    from remainder_10 [OF not_dvd_11 [OF that]] have r: "1 \<le> r" "r \<le> 9"
      by (simp_all only: r_def)
    have "ceil_product n mant_1_1 = j + 1"
      using assms mant_bounds(3) scaled_1_1 _ split r
      by (rule ceil_product_fraction_above) simp
    with ceil_div_10 [OF split r] show ?thesis by simp
  qed
  have near: "ceil_product n mant_1_1 = (11 * n + 9) div 10
              \<or> ceil_product n mant_1_1 = (11 * n + 9) div 10 + 1" if "n mod 10 = 0"
  proof -
    from that obtain i where n: "n = 10 * i" by (auto simp add: mod_eq_0_iff_dvd dvd_def)
    have p: "n * mant_1_1 = 11 * i * 2 ^ 52 + 4 * i"
      by (simp add: n mant_1_1_def)
    have bound: "n * mant_1_1 < 2 ^ 85"
      using assms mant_bounds(3) by (rule product_bound)
    have grid: "2 ^ 32 dvd 11 * i * 2 ^ 52"
      by (rule dvd_unit_multiple)
    from p have "11 * i * 2 ^ 52 \<le> n * mant_1_1" by simp
    with bound grid have lower: "11 * i * 2 ^ 52 \<le> round_to_53 (n * mant_1_1)"
      by (rule round_to_53_grid(2))
    from assms n have "i < 2 ^ 32" by simp
    with round_to_53_near [OF bound] p
    have "round_to_53 (n * mant_1_1) \<le> 11 * i * 2 ^ 52 + 2 ^ 52"
      unfolding powers by linarith
    then have upper: "round_to_53 (n * mant_1_1) \<le> (11 * i + 1) * 2 ^ 52"
      by (simp only: add_mult_distrib mult_1)
    have goal: "(11 * n + 9) div 10 = 11 * i" by (simp add: n)
    show ?thesis
    proof (cases "round_to_53 (n * mant_1_1) = 11 * i * 2 ^ 52")
      case True
      then have "ceil_product n mant_1_1 = 11 * i" by (simp add: ceil_product_def)
      with goal show ?thesis by simp
    next
      case False
      with lower have "11 * i * 2 ^ 52 < round_to_53 (n * mant_1_1)" by simp
      from this upper have "ceil_product n mant_1_1 = 11 * i + 1"
        unfolding ceil_product_def by (rule ceil_div_unit)
      with goal show ?thesis by simp
    qed
  qed
  from exact near show "(11 * n + 9) div 10 \<le> ceil_product n mant_1_1"
    by (cases "n mod 10 = 0") auto
  from exact near show "ceil_product n mant_1_1 \<le> (11 * n + 9) div 10 + 1"
    by (cases "n mod 10 = 0") auto
  from exact show "n mod 10 \<noteq> 0 \<Longrightarrow> ceil_product n mant_1_1 = (11 * n + 9) div 10" .
qed

text \<open>The exact ceilings, as the specification words them.\<close>

lemma ceiling_tenths:
  "nat \<lceil>(of_nat n :: rat) * (of_nat a / 10)\<rceil> = (a * n + 9) div 10"
proof -
  have "(of_nat n :: rat) * (of_nat a / 10) = of_int (int (a * n)) / of_int 10"
    by simp
  then have "\<lceil>(of_nat n :: rat) * (of_nat a / 10)\<rceil> = - (- int (a * n) div 10)"
    by (simp only: ceiling_divide_eq_div)
  also have "\<dots> = (int (a * n) + 9) div 10" by linarith
  also have "\<dots> = int ((a * n + 9) div 10)" by (simp add: zdiv_int)
  finally show ?thesis by (simp only: nat_int)
qed

subsection \<open>The estimate\<close>

lemma ceiling_quarters:
  "nat \<lceil>(of_nat n :: rat) * (125 / 100)\<rceil> = (5 * n + 3) div 4"
proof -
  have "(of_nat n :: rat) * (125 / 100) = of_int (int (5 * n)) / of_int 4"
    by simp
  then have "\<lceil>(of_nat n :: rat) * (125 / 100)\<rceil> = - (- int (5 * n) div 4)"
    by (simp only: ceiling_divide_eq_div)
  also have "\<dots> = (int (5 * n) + 3) div 4" by linarith
  also have "\<dots> = int ((5 * n + 3) div 4)" by (simp add: zdiv_int)
  finally show ?thesis by (simp only: nat_int)
qed

lemma spec_words_le_length: "spec_words t \<le> length t"
  by (induction t rule: spec_words.induct) auto

lemma countTokens_empty:
  "countTokens unicode None prov = Num 0" "countTokens unicode (Some []) prov = Num 0"
  by (simp_all add: countTokens_def)

lemma countTokens_inherited:
  assumes "toLowerCase unicode prov = lit ''constructor'' \<or> toLowerCase unicode prov = lit ''__proto__''"
      and "t \<noteq> []"
  shows "countTokens unicode (Some t) prov = NaN"
  using assms by (auto simp add: countTokens_def TOKEN_MULTIPLIERS_def lit_def)

lemma countTokens_product:
  assumes "toLowerCase unicode prov \<noteq> lit ''constructor''"
      and "toLowerCase unicode prov \<noteq> lit ''__proto__''" and "t \<noteq> []"
  shows "countTokens unicode (Some t) prov =
           Num (ceil_product (spec_words t) (multiplier unicode prov))"
  using assms
  by (simp add: countTokens_def TOKEN_MULTIPLIERS_def multiplier_def wordCount_spec_words)

lemma multiplier_cases:
  "multiplier unicode prov =
     (if toLowerCase unicode prov = lit ''openai'' then mant_1_3
      else if toLowerCase unicode prov = lit ''anthropic'' then mant_1_2
      else if toLowerCase unicode prov = lit ''google'' then mant_1_1
      else mant_1_25)"
  by (simp add: multiplier_def TOKEN_MULTIPLIERS_def)

lemma spec_estimate_cases:
  "spec_estimate unicode (Some t) prov =
     (if toLowerCase unicode prov = lit ''openai'' then (13 * spec_words t + 9) div 10
      else if toLowerCase unicode prov = lit ''anthropic'' then (12 * spec_words t + 9) div 10
      else if toLowerCase unicode prov = lit ''google'' then (11 * spec_words t + 9) div 10
      else (5 * spec_words t + 3) div 4)"
  using ceiling_tenths [of "spec_words t" 13] ceiling_tenths [of "spec_words t" 12]
    ceiling_tenths [of "spec_words t" 11] ceiling_quarters [of "spec_words t"]
  by (simp add: spec_estimate_def spec_factor_def)

lemma ceil_product_exact:
  assumes "n < 2 ^ 32" "toLowerCase unicode prov \<noteq> lit ''google''"
  shows "ceil_product n (multiplier unicode prov) =
     (if toLowerCase unicode prov = lit ''openai'' then (13 * n + 9) div 10
      else if toLowerCase unicode prov = lit ''anthropic'' then (12 * n + 9) div 10
      else (5 * n + 3) div 4)"
  using assms
  by (simp add: multiplier_cases ceil_product_1_3 ceil_product_1_2 ceil_product_1_25)

lemma spec_words_space: "isSpace c \<Longrightarrow> spec_words (c # s) = spec_words s"
  by (cases s) simp_all

lemma spec_words_tokens: "spec_words (concat (replicate n (lit ''token ''))) = n"
proof (induction n)
  case 0
  then show ?case by simp
next
  case (Suc n)
  have "isSpace 32" by (simp add: isSpace_def)
  from spec_words_space [OF this] Suc show ?case
    by (simp add: lit_def isSpace_def)
qed

text \<open>
  C7, as the code has it. For every provider name other than the two inherited property
  names, under any case mapping of the runtime: the estimate of an absent or empty text
  is 0; the estimate of any other text is the ceiling of the double-precision product of
  its number of whitespace-separated non-empty words and the double nearest the provider
  factor, a non-negative integer; for a text of fewer than \<open>2 ^ 32\<close> code units this is the
  exact ceiling of words times factor for the factors 1.3, 1.2 and 1.25, and the exact
  ceiling or one more for the factor 1.1.
\<close>

theorem countTokens_is_ceiling_of_double_product:
  assumes "toLowerCase unicode prov \<noteq> lit ''constructor''"
      and "toLowerCase unicode prov \<noteq> lit ''__proto__''"
  shows "countTokens unicode None prov = Num 0
     \<and> countTokens unicode (Some []) prov = Num 0
     \<and> wordCount t = spec_words t
     \<and> (t \<noteq> [] \<longrightarrow>
          countTokens unicode (Some t) prov =
            Num (ceil_product (spec_words t) (multiplier unicode prov)))
     \<and> (\<exists>k. countTokens unicode text prov = Num k)
     \<and> (length t < 2 ^ 32 \<longrightarrow> toLowerCase unicode prov \<noteq> lit ''google'' \<longrightarrow>
          countTokens unicode (Some t) prov = Num (spec_estimate unicode (Some t) prov))
     \<and> (length t < 2 ^ 32 \<longrightarrow> toLowerCase unicode prov = lit ''google'' \<longrightarrow>
          (\<exists>k. countTokens unicode (Some t) prov = Num k
               \<and> spec_estimate unicode (Some t) prov \<le> k
               \<and> k \<le> spec_estimate unicode (Some t) prov + 1))"
proof -
  note product = countTokens_product [OF assms]
  have number: "\<exists>k. countTokens unicode text prov = Num k"
  proof (cases "text")
    case None
    then show ?thesis by (simp add: countTokens_empty)
  next
    case (Some s)
    then show ?thesis by (cases "s = []") (simp_all add: countTokens_empty product)
  qed
  have exact: "countTokens unicode (Some t) prov = Num (spec_estimate unicode (Some t) prov)"
    if "length t < 2 ^ 32" "toLowerCase unicode prov \<noteq> lit ''google''"
  proof (cases "t = []")
    case True
    then show ?thesis by (simp add: countTokens_empty spec_estimate_def)
  next
    case False
    from that(1) spec_words_le_length [of t] have "spec_words t < 2 ^ 32" by simp
    from ceil_product_exact [OF this that(2)] that(2) show ?thesis
      by (simp add: product [OF False] spec_estimate_cases)
  qed
  have google: "\<exists>k. countTokens unicode (Some t) prov = Num k
               \<and> spec_estimate unicode (Some t) prov \<le> k
               \<and> k \<le> spec_estimate unicode (Some t) prov + 1"
    if "length t < 2 ^ 32" "toLowerCase unicode prov = lit ''google''"
  proof (cases "t = []")
    case True
    then show ?thesis by (simp add: countTokens_empty spec_estimate_def)
  next
    case False
    from that(1) spec_words_le_length [of t] have "spec_words t < 2 ^ 32" by simp
    from ceil_product_1_1(1,2) [OF this] that(2) show ?thesis
      by (simp add: product [OF False] spec_estimate_cases multiplier_cases)
  qed
  from product number exact google show ?thesis
    by (simp add: countTokens_empty wordCount_spec_words)
qed

theorem countTokens_is_ceiling_of_double_product_witness:
  "countTokens (unicode_lower plain_env) (Some (lit ''Hello big world'')) (lit ''OpenAI'') = Num 4
   \<and> spec_estimate (unicode_lower plain_env) (Some (lit ''Hello big world'')) (lit ''OpenAI'') = 4
   \<and> spec_words (lit ''Hello big world'') = 3
   \<and> spec_words spaced_text = 3
   \<and> countTokens (unicode_lower plain_env) (Some spaced_text) (lit ''OpenAI'') = Num 4"
proof -
  have lower: "toLowerCase (unicode_lower plain_env) (lit ''OpenAI'') = lit ''openai''"
    by (simp add: toLowerCase_def lower_ascii_def lit_def)
  have prov: "toLowerCase (unicode_lower plain_env) (lit ''OpenAI'') \<noteq> lit ''constructor''"
    "toLowerCase (unicode_lower plain_env) (lit ''OpenAI'') \<noteq> lit ''__proto__''"
    "toLowerCase (unicode_lower plain_env) (lit ''OpenAI'') \<noteq> lit ''google''"
    by (simp_all add: lower)
  have len: "length (lit ''Hello big world'') < 2 ^ 32" "length spaced_text < 2 ^ 32"
    by (simp_all add: lit_def spaced_text_def)
  have words: "spec_words (lit ''Hello big world'') = 3" "spec_words spaced_text = 3"
    by (simp_all add: lit_def spaced_text_def isSpace_def)
  have val: "spec_estimate (unicode_lower plain_env) (Some (lit ''Hello big world'')) (lit ''OpenAI'') = 4"
    "spec_estimate (unicode_lower plain_env) (Some spaced_text) (lit ''OpenAI'') = 4"
    by (simp_all add: spec_estimate_cases lower words)
  note facts = countTokens_is_ceiling_of_double_product [OF prov(1,2)]
  from facts [of "lit ''Hello big world''"] len(1) prov(3)
  have "countTokens (unicode_lower plain_env) (Some (lit ''Hello big world'')) (lit ''OpenAI'')
          = Num (spec_estimate (unicode_lower plain_env) (Some (lit ''Hello big world'')) (lit ''OpenAI''))"
    by blast
  moreover from facts [of spaced_text] len(2) prov(3)
  have "countTokens (unicode_lower plain_env) (Some spaced_text) (lit ''OpenAI'')
          = Num (spec_estimate (unicode_lower plain_env) (Some spaced_text) (lit ''OpenAI''))"
    by blast
  ultimately show ?thesis using val words by simp
qed

text \<open>
  The claim as stated fails for the factor 1.1: fifty words give 56 tokens, while the
  ceiling of 50 times 1.1 is 55.
\<close>

theorem countTokens_is_ceiling_of_double_product_counterexample:
  "spec_words fifty_words = 50
   \<and> spec_estimate (unicode_lower plain_env) (Some fifty_words) (lit ''google'') = 55
   \<and> countTokens (unicode_lower plain_env) (Some fifty_words) (lit ''google'') = Num 56"
proof -
  have words: "spec_words fifty_words = 50"
    by (simp add: fifty_words_def spec_words_tokens)
  have prov: "toLowerCase (unicode_lower plain_env) (lit ''google'') = lit ''google''"
    by (simp add: toLowerCase_def lower_ascii_def lit_def)
  from words prov have "spec_estimate (unicode_lower plain_env) (Some fifty_words) (lit ''google'') = 55"
    by (simp add: spec_estimate_cases)
  moreover have "fifty_words \<noteq> []"
    by (simp add: fifty_words_def lit_def)
  then have "countTokens (unicode_lower plain_env) (Some fifty_words) (lit ''google'') = Num 56"
    by (simp add: countTokens_def TOKEN_MULTIPLIERS_def prov wordCount_spec_words words
          ceil_product_def round_to_53_def mant_1_1_def compute_floorlog)
  ultimately show ?thesis using words by simp
qed


end
